theory Spec2Isabelle
  imports Main "HOL-Library.Sublist"
begin

section \<open>The URL interface of the platform\<close>

text \<open>
  \<^verbatim>\<open>normalizeUrl\<close> (archiveService.js, lines 30-51) is written against the platform's
  \<^verbatim>\<open>URL\<close> and \<^verbatim>\<open>URLSearchParams\<close> classes, which are not part of the repository. They are
  taken as a parameter: a record of the operations the function calls, over an abstract type
  \<open>'u\<close> of URL objects.

  \<^item> \<open>URL_new s\<close> is \<^verbatim>\<open>new URL(s)\<close>; \<open>None\<close> when the constructor throws.
  \<^item> \<open>URL_search u\<close> is the query string the \<^verbatim>\<open>searchParams\<close> object is initialised
    from (without the question mark, empty when the URL has no query).
  \<^item> \<open>URL_set_search q u\<close> is the update step every mutation of \<^verbatim>\<open>searchParams\<close> ends
    with: the serialised parameter list \<open>q\<close> is written back as the query of the URL.
  \<^item> \<open>URL_toString u\<close> is \<^verbatim>\<open>u.toString()\<close>.
  \<^item> \<open>form_parse\<close> and \<open>form_serialize\<close> are the parser and serialiser of
    \<^verbatim>\<open>application/x-www-form-urlencoded\<close> that \<^verbatim>\<open>URLSearchParams\<close> uses.
\<close>

record 'u url_api =
  URL_new :: "string \<Rightarrow> 'u option"
  URL_search :: "'u \<Rightarrow> string"
  URL_set_search :: "string \<Rightarrow> 'u \<Rightarrow> 'u"
  URL_toString :: "'u \<Rightarrow> string"
  form_parse :: "string \<Rightarrow> (string \<times> string) list"
  form_serialize :: "(string \<times> string) list \<Rightarrow> string"

text \<open>
  A \<^verbatim>\<open>URLSearchParams\<close> object bound to a URL is the pair of the URL object and the list
  of name-value pairs. \<open>searchParams\<close> is the getter; \<open>searchParams_delete\<close> is
  \<^verbatim>\<open>delete(name)\<close>: it drops every pair with that name and then runs the update step,
  whether or not a pair was dropped.
\<close>

definition searchParams :: "'u url_api \<Rightarrow> 'u \<Rightarrow> (string \<times> string) list" where
  "searchParams api u = form_parse api (URL_search api u)"

definition searchParams_delete ::
  "'u url_api \<Rightarrow> string \<Rightarrow> 'u \<times> (string \<times> string) list \<Rightarrow> 'u \<times> (string \<times> string) list" where
  "searchParams_delete api name st =
     (let kept = filter (\<lambda>kv. fst kv \<noteq> name) (snd st)
      in (URL_set_search api (form_serialize api kept) (fst st), kept))"

section \<open>URL normalisation\<close>

definition paramsToRemove :: "string list" where
  "paramsToRemove =
     [''utm_source'', ''utm_medium'', ''utm_campaign'', ''utm_term'', ''utm_content'',
      ''gclid'', ''dclid'', ''fbclid'', ''msclkid'', ''yclid'']"

text \<open>
  The \<^verbatim>\<open>try\<close> block of the source covers the whole body and its \<^verbatim>\<open>catch\<close> returns the
  input, so the function returns a string on every path; the only call that throws is
  the constructor.
\<close>

definition normalizeUrl :: "'u url_api \<Rightarrow> string \<Rightarrow> string" where
  "normalizeUrl api inputUrl =
     (case URL_new api inputUrl of
        None \<Rightarrow> inputUrl
      | Some urlObj \<Rightarrow>
          URL_toString api
            (fst (fold (searchParams_delete api) paramsToRemove
                  (urlObj, searchParams api urlObj))))"

section \<open>Configuration constants\<close>

definition FILE_SIZE_LIMIT :: int where
  "FILE_SIZE_LIMIT = 1073741824"

definition PARALLEL_LIMIT :: nat where
  "PARALLEL_LIMIT = 5"

section \<open>String operations of the language\<close>

text \<open>
  Strings are lists of 8-bit characters: a header value is read as its sequence of code
  units below 256. \<open>includes_str s t\<close> is \<^verbatim>\<open>s.includes(t)\<close>, \<open>startsWith s t\<close> is
  \<^verbatim>\<open>s.startsWith(t)\<close>, \<open>split_on c s\<close> is \<^verbatim>\<open>s.split(c)\<close> for a separator of one
  character. All three compare characters exactly, letter case included.
\<close>

fun includes_str :: "string \<Rightarrow> string \<Rightarrow> bool" where
  "includes_str [] t = (t = [])"
| "includes_str (c # cs) t = (prefix t (c # cs) \<or> includes_str cs t)"

definition startsWith :: "string \<Rightarrow> string \<Rightarrow> bool" where
  "startsWith s t = prefix t s"

fun split_on :: "char \<Rightarrow> string \<Rightarrow> string list" where
  "split_on c [] = [[]]"
| "split_on c (x # xs) =
     (if x = c then [] # split_on c xs
      else (case split_on c xs of
              [] \<Rightarrow> [[x]]
            | p # ps \<Rightarrow> (x # p) # ps))"

text \<open>
  \<open>parseInt s\<close> is \<^verbatim>\<open>parseInt(s, 10)\<close>: leading white space is skipped, one sign is
  read, then the longest run of decimal digits; \<open>None\<close> is \<^verbatim>\<open>NaN\<close> (no digit). With the
  radix given as 10 no \<^verbatim>\<open>0x\<close> prefix is recognised. The result is an unbounded integer
  here and a double in the program; the only use of the result is the comparison with
  \<open>FILE_SIZE_LIMIT = 2^30\<close>, which rounding to a double does not change (integers up to
  \<open>2^53\<close> are exact and rounding is monotone).
\<close>

definition isWhiteSpace :: "char \<Rightarrow> bool" where
  "isWhiteSpace c = ((of_char c :: nat) \<in> {9, 10, 11, 12, 13, 32, 160})"

definition isDigit :: "char \<Rightarrow> bool" where
  "isDigit c = (48 \<le> (of_char c :: nat) \<and> (of_char c :: nat) \<le> 57)"

definition digitValue :: "char \<Rightarrow> int" where
  "digitValue c = int (of_char c) - 48"

definition decimalValue :: "string \<Rightarrow> int" where
  "decimalValue ds = foldl (\<lambda>a c. 10 * a + digitValue c) 0 ds"

definition parseInt :: "string \<Rightarrow> int option" where
  "parseInt s =
     (let S = dropWhile isWhiteSpace s;
          sign = (if S \<noteq> [] \<and> hd S = CHR ''-'' then - 1 else 1);
          S' = (if S \<noteq> [] \<and> (hd S = CHR ''+'' \<or> hd S = CHR ''-'') then tl S else S);
          Z = takeWhile isDigit S'
      in if Z = [] then None else Some (sign * decimalValue Z))"

section \<open>The environment of the archive handler\<close>

text \<open>
  The browser, the file system and the hash function are outside the repository. An
  environment fixes what each external call does for one request: a result of type
  \<open>string + 'a\<close> is \<open>Inl message\<close> when the call throws an error with that message, and an
  optional message is \<open>Some message\<close> when a call without a result throws.
  \<open>goto_r url\<close> is the outcome of \<^verbatim>\<open>page.goto(url)\<close>: an error, \<^verbatim>\<open>null\<close> (\<open>Inr None\<close>), or a
  response, given by its header map (\<^verbatim>\<open>response.headers()\<close>, names in lower case).
\<close>

type_synonym headers = "string \<rightharpoonup> string"

record env =
  dirname :: string
  sha1_hex :: "string \<Rightarrow> string"
  mkdirSync_r :: "string \<Rightarrow> string option"
  newPage_r :: "string option"
  goto_r :: "string \<Rightarrow> string + headers option"
  content_r :: "string + string"
  pdf_r :: "string option"
  screenshot_r :: "string option"
  body_r :: "string + string"
  writeFileSync_r :: "string \<Rightarrow> string option"
  close_r :: "string option"

text \<open>
  What a request leaves behind: the directories made, the files written (path and data,
  in order), the number of browser pages opened and not closed, and the errors logged.
\<close>

datatype file_data = Markup string | Body string | PagePdf | PageScreenshot

record state =
  dirs :: "string list"
  files :: "(string \<times> file_data) list"
  open_pages :: nat
  logged :: "string list"

definition initial_state :: state where
  "initial_state = \<lparr> dirs = [], files = [], open_pages = 0, logged = [] \<rparr>"

text \<open>Values of the language that the handler passes to \<^verbatim>\<open>res.json\<close> or holds in scope.\<close>

datatype jsval = JString string | JObject "(string \<times> string) list" | JOpaque

record request =
  req_url :: "string option"
  req_protocol :: string
  req_host :: string

type_synonym response = "nat \<times> jsval"

text \<open>
  A computation that may throw: it takes the state and returns the state reached, with
  either the message of the error thrown or a result. \<open>and_then\<close> sequences two such
  computations; the second does not run when the first throws.
\<close>

type_synonym 'a eff = "state \<Rightarrow> (string + 'a) \<times> state"

definition ret :: "'a \<Rightarrow> 'a eff" where
  "ret x = (\<lambda>s. (Inr x, s))"

definition throw :: "string \<Rightarrow> 'a eff" where
  "throw e = (\<lambda>s. (Inl e, s))"

definition and_then :: "'a eff \<Rightarrow> ('a \<Rightarrow> 'b eff) \<Rightarrow> 'b eff" where
  "and_then m f = (\<lambda>s. case m s of (Inl e, s') \<Rightarrow> (Inl e, s') | (Inr x, s') \<Rightarrow> f x s')"

definition path_join :: "string \<Rightarrow> string \<Rightarrow> string" where
  "path_join a b = a @ ''/'' @ b"

definition ARCHIVE_DIR :: "env \<Rightarrow> string" where
  "ARCHIVE_DIR E = path_join (dirname E) ''archive''"

definition fs_mkdirSync :: "env \<Rightarrow> string \<Rightarrow> unit eff" where
  "fs_mkdirSync E p =
     (case mkdirSync_r E p of
        Some e \<Rightarrow> throw e
      | None \<Rightarrow> (\<lambda>s. (Inr (), s\<lparr>dirs := dirs s @ [p]\<rparr>)))"

definition fs_writeFileSync :: "env \<Rightarrow> string \<Rightarrow> file_data \<Rightarrow> unit eff" where
  "fs_writeFileSync E p d =
     (case writeFileSync_r E p of
        Some e \<Rightarrow> throw e
      | None \<Rightarrow> (\<lambda>s. (Inr (), s\<lparr>files := files s @ [(p, d)]\<rparr>)))"

definition browser_newPage :: "env \<Rightarrow> unit eff" where
  "browser_newPage E =
     (case newPage_r E of
        Some e \<Rightarrow> throw e
      | None \<Rightarrow> (\<lambda>s. (Inr (), s\<lparr>open_pages := open_pages s + 1\<rparr>)))"

definition page_goto :: "env \<Rightarrow> string \<Rightarrow> (headers option) eff" where
  "page_goto E url = (\<lambda>s. (goto_r E url, s))"

definition page_content :: "env \<Rightarrow> string eff" where
  "page_content E = (\<lambda>s. (content_r E, s))"

definition response_body :: "env \<Rightarrow> string eff" where
  "response_body E = (\<lambda>s. (body_r E, s))"

definition page_pdf :: "env \<Rightarrow> string \<Rightarrow> unit eff" where
  "page_pdf E p =
     (case pdf_r E of
        Some e \<Rightarrow> throw e
      | None \<Rightarrow> (\<lambda>s. (Inr (), s\<lparr>files := files s @ [(p, PagePdf)]\<rparr>)))"

definition page_screenshot :: "env \<Rightarrow> string \<Rightarrow> unit eff" where
  "page_screenshot E p =
     (case screenshot_r E of
        Some e \<Rightarrow> throw e
      | None \<Rightarrow> (\<lambda>s. (Inr (), s\<lparr>files := files s @ [(p, PageScreenshot)]\<rparr>)))"

definition page_close :: "env \<Rightarrow> unit eff" where
  "page_close E =
     (case close_r E of
        Some e \<Rightarrow> throw e
      | None \<Rightarrow> (\<lambda>s. (Inr (), s\<lparr>open_pages := open_pages s - 1\<rparr>)))"

section \<open>The format dispatcher and the savers\<close>

text \<open>
  The chain of conditions of the handler (lines 119-197), in the order of the source.
  The image and video categories test a prefix, the others a substring.
\<close>

datatype category =
  HtmlPage | PdfFile | Image | Video | Csv | Spreadsheet | Document | ZipArchive | Fallback

definition dispatch :: "string \<Rightarrow> category" where
  "dispatch contentType =
     (if includes_str contentType ''text/html'' then HtmlPage
      else if includes_str contentType ''application/pdf'' then PdfFile
      else if startsWith contentType ''image/'' then Image
      else if startsWith contentType ''video/'' then Video
      else if includes_str contentType ''text/csv'' then Csv
      else if includes_str contentType ''application/vnd.ms-excel'' \<or>
              includes_str contentType
                ''application/vnd.openxmlformats-officedocument.spreadsheetml.sheet''
           then Spreadsheet
      else if includes_str contentType ''application/msword'' \<or>
              includes_str contentType
                ''application/vnd.openxmlformats-officedocument.wordprocessingml.document''
           then Document
      else if includes_str contentType ''application/zip'' then ZipArchive
      else Fallback)"

definition image_ext :: "string \<Rightarrow> string" where
  "image_ext contentType =
     (if includes_str contentType ''jpeg'' then ''jpg''
      else if includes_str contentType ''gif'' then ''gif''
      else ''png'')"

text \<open>\<^verbatim>\<open>contentType.split('/')[1] || 'mp4'\<close>: the second piece, unless missing or empty.\<close>

definition video_ext :: "string \<Rightarrow> string" where
  "video_ext contentType =
     (case split_on CHR ''/'' contentType of
        p # e # ps \<Rightarrow> (if e = [] then ''mp4'' else e)
      | _ \<Rightarrow> ''mp4'')"

definition excel_ext :: "string \<Rightarrow> string" where
  "excel_ext contentType =
     (if includes_str contentType ''openxmlformats-officedocument.spreadsheetml.sheet''
      then ''xlsx'' else ''xls'')"

definition word_ext :: "string \<Rightarrow> string" where
  "word_ext contentType =
     (if includes_str contentType ''openxmlformats-officedocument.wordprocessingml.document''
      then ''docx'' else ''doc'')"

text \<open>
  The two ways of saving. Each returns the entries it adds to \<^verbatim>\<open>savedFiles\<close>, an
  association list from artifact kind to public URL.
\<close>

definition save_markup :: "env \<Rightarrow> string \<Rightarrow> string \<Rightarrow> string \<Rightarrow> ((string \<times> string) list) eff" where
  "save_markup E archiveSubDir baseUrl hash =
     and_then (page_content E) (\<lambda>htmlContent.
       let htmlFileName = hash @ ''.html'' in
       and_then (fs_writeFileSync E (path_join archiveSubDir htmlFileName) (Markup htmlContent))
         (\<lambda>_. ret [(''html'', baseUrl @ ''/'' @ htmlFileName)]))"

definition save_body ::
  "env \<Rightarrow> string \<Rightarrow> string \<Rightarrow> string \<Rightarrow> string \<Rightarrow> ((string \<times> string) list) eff" where
  "save_body E archiveSubDir baseUrl hash ext =
     and_then (response_body E) (\<lambda>buffer.
       let fileName = hash @ ''.'' @ ext in
       and_then (fs_writeFileSync E (path_join archiveSubDir fileName) (Body buffer))
         (\<lambda>_. ret [(''file'', baseUrl @ ''/'' @ fileName)]))"

definition save :: "env \<Rightarrow> string \<Rightarrow> string \<Rightarrow> string \<Rightarrow> string \<Rightarrow> ((string \<times> string) list) eff" where
  "save E archiveSubDir baseUrl hash contentType =
     (case dispatch contentType of
        HtmlPage \<Rightarrow>
          and_then (save_markup E archiveSubDir baseUrl hash) (\<lambda>savedFiles.
            let pdfFileName = hash @ ''.pdf'' in
            and_then (page_pdf E (path_join archiveSubDir pdfFileName)) (\<lambda>_.
              let savedFiles = savedFiles @ [(''pdf'', baseUrl @ ''/'' @ pdfFileName)];
                  screenshotFileName = hash @ ''.png'' in
              and_then (page_screenshot E (path_join archiveSubDir screenshotFileName)) (\<lambda>_.
                ret (savedFiles @ [(''screenshot'', baseUrl @ ''/'' @ screenshotFileName)]))))
      | PdfFile \<Rightarrow> save_body E archiveSubDir baseUrl hash ''pdf''
      | Image \<Rightarrow> save_body E archiveSubDir baseUrl hash (image_ext contentType)
      | Video \<Rightarrow> save_body E archiveSubDir baseUrl hash (video_ext contentType)
      | Csv \<Rightarrow> save_body E archiveSubDir baseUrl hash ''csv''
      | Spreadsheet \<Rightarrow> save_body E archiveSubDir baseUrl hash (excel_ext contentType)
      | Document \<Rightarrow> save_body E archiveSubDir baseUrl hash (word_ext contentType)
      | ZipArchive \<Rightarrow> save_body E archiveSubDir baseUrl hash ''zip''
      | Fallback \<Rightarrow> save_markup E archiveSubDir baseUrl hash)"

section \<open>The session and the archive handler\<close>

text \<open>
  The size guard (line 112): the header is present, not the empty string, and
  \<open>parseInt\<close> of it is a number above the limit. A comparison with \<^verbatim>\<open>NaN\<close> is false.
\<close>

definition size_exceeded :: "string option \<Rightarrow> bool" where
  "size_exceeded contentLengthHeader =
     (case contentLengthHeader of
        None \<Rightarrow> False
      | Some v \<Rightarrow> v \<noteq> [] \<and> (case parseInt v of None \<Rightarrow> False | Some n \<Rightarrow> n > FILE_SIZE_LIMIT))"

definition null_headers_message :: string where
  "null_headers_message = ''Cannot read properties of null (reading 'headers')''"

text \<open>
  The body of the function passed to \<^verbatim>\<open>limit\<close> (lines 106-199), returning the value its
  local variable \<^verbatim>\<open>savedFiles\<close> holds after \<^verbatim>\<open>page.close()\<close>. There is no
  \<^verbatim>\<open>finally\<close>: a step that throws ends the body at once.
\<close>

definition session ::
  "env \<Rightarrow> string \<Rightarrow> string \<Rightarrow> string \<Rightarrow> string \<Rightarrow> ((string \<times> string) list) eff" where
  "session E normalizedUrl hash archiveSubDir baseUrl =
     and_then (browser_newPage E) (\<lambda>_.
     and_then (page_goto E normalizedUrl) (\<lambda>response.
       case response of
         None \<Rightarrow> throw null_headers_message
       | Some hdrs \<Rightarrow>
           if size_exceeded (hdrs ''content-length'')
           then throw ''File size exceeds 1GB, not saving.''
           else
             let contentType =
               (case hdrs ''content-type'' of None \<Rightarrow> [] | Some v \<Rightarrow> v) in
             and_then (save E archiveSubDir baseUrl hash contentType) (\<lambda>savedFiles.
             and_then (page_close E) (\<lambda>_. ret savedFiles))))"

text \<open>
  The function passed to \<^verbatim>\<open>limit\<close> has no \<^verbatim>\<open>return\<close>: it yields \<^verbatim>\<open>undefined\<close>, and
  \<^verbatim>\<open>savedFiles\<close>, declared with \<^verbatim>\<open>let\<close> inside it (line 117), goes out of scope with it.
\<close>

definition limit_callback :: "env \<Rightarrow> string \<Rightarrow> string \<Rightarrow> string \<Rightarrow> string \<Rightarrow> unit eff" where
  "limit_callback E normalizedUrl hash archiveSubDir baseUrl =
     and_then (session E normalizedUrl hash archiveSubDir baseUrl) (\<lambda>savedFiles. ret ())"

text \<open>
  The bindings in scope at line 202, where the handler evaluates the identifier
  \<^verbatim>\<open>savedFiles\<close>: the parameters and constants of the handler, then the imports and
  declarations of the module; the global object has no property of that name. Reading
  an identifier with no binding throws a \<^verbatim>\<open>ReferenceError\<close>.
\<close>

definition handler_scope ::
  "string \<Rightarrow> string \<Rightarrow> string \<Rightarrow> string \<Rightarrow> string \<Rightarrow> (string \<times> jsval) list" where
  "handler_scope originalUrl normalizedUrl hash archiveSubDir baseUrl =
     [(''req'', JOpaque), (''res'', JOpaque),
      (''originalUrl'', JString originalUrl), (''normalizedUrl'', JString normalizedUrl),
      (''hash'', JString hash), (''archiveSubDir'', JString archiveSubDir),
      (''baseUrl'', JString baseUrl),
      (''path'', JOpaque), (''fileURLToPath'', JOpaque), (''__filename'', JOpaque),
      (''__dirname'', JOpaque), (''PORT'', JOpaque), (''ARCHIVE_DIR'', JOpaque),
      (''FILE_SIZE_LIMIT'', JOpaque), (''PARALLEL_LIMIT'', JOpaque), (''express'', JOpaque),
      (''fs'', JOpaque), (''crypto'', JOpaque), (''chromium'', JOpaque), (''pLimit'', JOpaque),
      (''normalizeUrl'', JOpaque), (''app'', JOpaque), (''limit'', JOpaque),
      (''browser'', JOpaque), (''launchBrowser'', JOpaque)]"

definition read_identifier :: "(string \<times> jsval) list \<Rightarrow> string \<Rightarrow> jsval eff" where
  "read_identifier scope name =
     (case map_of scope name of
        None \<Rightarrow> throw (name @ '' is not defined'')
      | Some v \<Rightarrow> ret v)"

text \<open>
  The handler of \<^verbatim>\<open>GET /archive\<close> (lines 88-207). The result is the response sent, if
  any, and the state reached. \<^verbatim>\<open>fs.mkdirSync\<close> is called outside the \<^verbatim>\<open>try\<close>: when it
  throws, the handler sends nothing. Inside the \<^verbatim>\<open>try\<close>, the session runs and then
  \<^verbatim>\<open>res.json(savedFiles)\<close> is evaluated; the \<^verbatim>\<open>catch\<close> logs the error and answers 500 with
  \<^verbatim>\<open>err.message || 'Archiving failed.'\<close>. The query parameter is taken to be a string when
  present.
\<close>

definition archive :: "'u url_api \<Rightarrow> env \<Rightarrow> request \<Rightarrow> state \<Rightarrow> response option \<times> state" where
  "archive api E req s0 =
     (case req_url req of
        None \<Rightarrow> (Some (400, JObject [(''error'', ''URL is required as a query parameter.'')]), s0)
      | Some originalUrl \<Rightarrow>
          if originalUrl = []
          then (Some (400, JObject [(''error'', ''URL is required as a query parameter.'')]), s0)
          else
            let normalizedUrl = normalizeUrl api originalUrl;
                hash = sha1_hex E normalizedUrl;
                archiveSubDir = path_join (ARCHIVE_DIR E) hash
            in (case fs_mkdirSync E archiveSubDir s0 of
                  (Inl e, s1) \<Rightarrow> (None, s1)
                | (Inr u, s1) \<Rightarrow>
                    let baseUrl = req_protocol req @ ''://'' @ req_host req @ ''/files/'' @ hash
                    in (case and_then (limit_callback E normalizedUrl hash archiveSubDir baseUrl)
                               (\<lambda>_. and_then
                                  (read_identifier
                                     (handler_scope originalUrl normalizedUrl hash
                                        archiveSubDir baseUrl)
                                     ''savedFiles'')
                                  (\<lambda>v. ret (200, v))) s1 of
                          (Inr r, s2) \<Rightarrow> (Some r, s2)
                        | (Inl e, s2) \<Rightarrow>
                            (Some (500, JObject [(''error'',
                                     if e = [] then ''Archiving failed.'' else e)]),
                             s2\<lparr>logged := logged s2 @ [e]\<rparr>))))"

section \<open>The concurrency gate\<close>

text \<open>
  Modelled from the spec: the gate returned by \<^verbatim>\<open>pLimit(PARALLEL_LIMIT)\<close> (line 72) is
  code of the p-limit package, which is not among the sources. The spec (4.3) describes
  it: a fixed capacity; a request takes a slot before it starts, and waits in a
  first-in-first-out queue while the gate is at capacity; the slot is given back when the
  guarded block completes or raises, and the longest waiting request then starts.

  A gate state lists the sessions that run and those that wait. \<open>Arrive r\<close> is a call
  \<^verbatim>\<open>limit(fn)\<close> for request \<open>r\<close>; \<open>Completes r\<close> and \<open>Raises r\<close> are the two ways its
  guarded block ends.
\<close>

record 'r gate =
  running :: "'r list"
  waiting :: "'r list"

datatype 'r gate_event = Arrive 'r | Completes 'r | Raises 'r

definition empty_gate :: "'r gate" where
  "empty_gate = \<lparr> running = [], waiting = [] \<rparr>"

definition admit :: "nat \<Rightarrow> 'r gate \<Rightarrow> 'r gate" where
  "admit cap g =
     (case waiting g of
        [] \<Rightarrow> g
      | r # rs \<Rightarrow>
          if length (running g) < cap then \<lparr> running = running g @ [r], waiting = rs \<rparr> else g)"

definition release :: "nat \<Rightarrow> 'r \<Rightarrow> 'r gate \<Rightarrow> 'r gate" where
  "release cap r g =
     (if r \<in> set (running g) then admit cap (g\<lparr>running := remove1 r (running g)\<rparr>) else g)"

fun gate_step :: "nat \<Rightarrow> 'r gate \<Rightarrow> 'r gate_event \<Rightarrow> 'r gate" where
  "gate_step cap g (Arrive r) = admit cap (g\<lparr>waiting := waiting g @ [r]\<rparr>)"
| "gate_step cap g (Completes r) = release cap r g"
| "gate_step cap g (Raises r) = release cap r g"

definition gate_run :: "nat \<Rightarrow> 'r gate_event list \<Rightarrow> 'r gate" where
  "gate_run cap evs = foldl (gate_step cap) empty_gate evs"

definition limit_run :: "'r gate_event list \<Rightarrow> 'r gate" where
  "limit_run evs = gate_run PARALLEL_LIMIT evs"

section \<open>The dispatch table\<close>

text \<open>
  The ordered set of categories as a table: each row is a category, the way its pattern
  is tested (as a substring of the content type, or as a prefix of it) and the pattern.
  The tests compare characters exactly. \<open>first_match\<close> selects the category of the first
  row whose test holds, and the fallback when none does.
\<close>

datatype match_kind = Substring | Prefix

definition category_rows :: "(category \<times> match_kind \<times> string) list" where
  "category_rows =
     [(HtmlPage, Substring, ''text/html''),
      (PdfFile, Substring, ''application/pdf''),
      (Image, Prefix, ''image/''),
      (Video, Prefix, ''video/''),
      (Csv, Substring, ''text/csv''),
      (Spreadsheet, Substring, ''application/vnd.ms-excel''),
      (Spreadsheet, Substring,
         ''application/vnd.openxmlformats-officedocument.spreadsheetml.sheet''),
      (Document, Substring, ''application/msword''),
      (Document, Substring,
         ''application/vnd.openxmlformats-officedocument.wordprocessingml.document''),
      (ZipArchive, Substring, ''application/zip'')]"

definition category_patterns :: "string list" where
  "category_patterns = map (\<lambda>row. snd (snd row)) category_rows"

definition row_matches :: "category \<times> match_kind \<times> string \<Rightarrow> string \<Rightarrow> bool" where
  "row_matches row ct =
     (case fst (snd row) of
        Substring \<Rightarrow> includes_str ct (snd (snd row))
      | Prefix \<Rightarrow> startsWith ct (snd (snd row)))"

fun first_match :: "(category \<times> match_kind \<times> string) list \<Rightarrow> string \<Rightarrow> category" where
  "first_match [] ct = Fallback"
| "first_match (row # rows) ct = (if row_matches row ct then fst row else first_match rows ct)"

definition matches_no_category :: "string \<Rightarrow> bool" where
  "matches_no_category ct = list_all (\<lambda>row. \<not> row_matches row ct) category_rows"

text \<open>
  The extensions of the files each row of the table saves, in the order they are saved,
  stated without the splitting of the source: the subtype of a video type is what stands
  between the first slash and the next.
\<close>

definition table_extensions :: "string \<Rightarrow> string list" where
  "table_extensions ct =
     (if includes_str ct ''text/html'' then [''html'', ''pdf'', ''png'']
      else if includes_str ct ''application/pdf'' then [''pdf'']
      else if startsWith ct ''image/''
        then [if includes_str ct ''jpeg'' then ''jpg''
              else if includes_str ct ''gif'' then ''gif'' else ''png'']
      else if startsWith ct ''video/''
        then [let subtype = takeWhile (\<lambda>c. c \<noteq> CHR ''/'') (drop 6 ct)
              in if subtype = [] then ''mp4'' else subtype]
      else if includes_str ct ''text/csv'' then [''csv'']
      else if includes_str ct ''application/vnd.ms-excel'' \<or>
              includes_str ct
                ''application/vnd.openxmlformats-officedocument.spreadsheetml.sheet''
        then [if includes_str ct ''openxmlformats-officedocument.spreadsheetml.sheet''
              then ''xlsx'' else ''xls'']
      else if includes_str ct ''application/msword'' \<or>
              includes_str ct
                ''application/vnd.openxmlformats-officedocument.wordprocessingml.document''
        then [if includes_str ct ''openxmlformats-officedocument.wordprocessingml.document''
              then ''docx'' else ''doc'']
      else if includes_str ct ''application/zip'' then [''zip'']
      else [''html''])"

text \<open>
  Folding of letter case, as \<^verbatim>\<open>toLowerCase\<close> does it on the letters A to Z. The handler
  never calls it; it serves to say what differing in letter case only means.
\<close>

definition lower_char :: "char \<Rightarrow> char" where
  "lower_char c =
     (if 65 \<le> (of_char c :: nat) \<and> (of_char c :: nat) \<le> 90
      then char_of ((of_char c :: nat) + 32) else c)"

definition toLowerCase :: "string \<Rightarrow> string" where
  "toLowerCase s = map lower_char s"

text \<open>Every external call of the environment succeeds.\<close>

definition calls_succeed :: "env \<Rightarrow> bool" where
  "calls_succeed E \<longleftrightarrow>
     (\<forall>p. mkdirSync_r E p = None) \<and> newPage_r E = None \<and>
     (\<exists>c. content_r E = Inr c) \<and> pdf_r E = None \<and> screenshot_r E = None \<and>
     (\<exists>b. body_r E = Inr b) \<and> (\<forall>p. writeFileSync_r E p = None) \<and> close_r E = None"

section \<open>Laws of the URL interface and a small instance\<close>

text \<open>
  The URL objects the normaliser meets: those the constructor returns and those an update
  of the search parameters makes of them.
\<close>

inductive url_reachable :: "'u url_api \<Rightarrow> 'u \<Rightarrow> bool" for api :: "'u url_api" where
  parsed: "URL_new api s = Some u \<Longrightarrow> url_reachable api u"
| updated: "url_reachable api u \<Longrightarrow> url_reachable api (URL_set_search api (form_serialize api l) u)"

text \<open>
  What the normaliser needs of the platform, as the URL standard intends it:
  \<^item> parsing the serialisation of a URL object gives the object back;
  \<^item> after an update the query is the string written;
  \<^item> writing the same query twice is writing it once;
  \<^item> parsing the serialisation of any selection of parsed pairs gives the selection back.
\<close>

definition url_api_laws :: "'u url_api \<Rightarrow> bool" where
  "url_api_laws api \<longleftrightarrow>
     (\<forall>u. url_reachable api u \<longrightarrow> URL_new api (URL_toString api u) = Some u) \<and>
     (\<forall>u l. url_reachable api u \<longrightarrow>
        URL_search api (URL_set_search api (form_serialize api l) u) = form_serialize api l) \<and>
     (\<forall>u l. url_reachable api u \<longrightarrow>
        URL_set_search api (form_serialize api l) (URL_set_search api (form_serialize api l) u)
          = URL_set_search api (form_serialize api l) u) \<and>
     (\<forall>q P. form_parse api (form_serialize api (filter P (form_parse api q)))
          = filter P (form_parse api q))"

text \<open>
  A small instance of the interface, for URLs of the shape
  \<^verbatim>\<open>scheme:rest?name=value&name=value\<close> without percent-encoding or fragment. A URL object
  is the pair of the part before the question mark and the query. It shows that the laws
  can be met and gives the normaliser something to run on.
\<close>

definition isAlpha :: "char \<Rightarrow> bool" where
  "isAlpha c = ((65 \<le> (of_char c :: nat) \<and> (of_char c :: nat) \<le> 90) \<or>
                (97 \<le> (of_char c :: nat) \<and> (of_char c :: nat) \<le> 122))"

definition plain_valid_head :: "string \<Rightarrow> bool" where
  "plain_valid_head h = (h \<noteq> [] \<and> isAlpha (hd h) \<and> CHR '':'' \<in> set h)"

definition plain_URL_new :: "string \<Rightarrow> (string \<times> string) option" where
  "plain_URL_new s =
     (let h = takeWhile (\<lambda>c. c \<noteq> CHR ''?'') s
      in if plain_valid_head h
         then Some (h, drop 1 (dropWhile (\<lambda>c. c \<noteq> CHR ''?'') s))
         else None)"

definition plain_URL_toString :: "string \<times> string \<Rightarrow> string" where
  "plain_URL_toString u = (if snd u = [] then fst u else fst u @ ''?'' @ snd u)"

definition plain_pair :: "string \<Rightarrow> string \<times> string" where
  "plain_pair seg =
     (takeWhile (\<lambda>c. c \<noteq> CHR ''='') seg, drop 1 (dropWhile (\<lambda>c. c \<noteq> CHR ''='') seg))"

definition plain_form_parse :: "string \<Rightarrow> (string \<times> string) list" where
  "plain_form_parse q = map plain_pair (filter (\<lambda>seg. seg \<noteq> []) (split_on CHR ''&'' q))"

fun join_with :: "char \<Rightarrow> string list \<Rightarrow> string" where
  "join_with c [] = []"
| "join_with c [x] = x"
| "join_with c (x # y # ys) = x @ c # join_with c (y # ys)"

definition plain_segment :: "string \<times> string \<Rightarrow> string" where
  "plain_segment kv = fst kv @ ''='' @ snd kv"

definition plain_form_serialize :: "(string \<times> string) list \<Rightarrow> string" where
  "plain_form_serialize l = join_with CHR ''&'' (map plain_segment l)"

definition plain_api :: "(string \<times> string) url_api" where
  "plain_api =
     \<lparr> URL_new = plain_URL_new,
       URL_search = snd,
       URL_set_search = (\<lambda>q u. (fst u, q)),
       URL_toString = plain_URL_toString,
       form_parse = plain_form_parse,
       form_serialize = plain_form_serialize \<rparr>"

text \<open>An environment in which every external call succeeds, answering with the given headers.\<close>

definition ok_env :: "headers \<Rightarrow> env" where
  "ok_env hdrs =
     \<lparr> dirname = ''/srv'',
       sha1_hex = (\<lambda>s. ''da39a3ee''),
       mkdirSync_r = (\<lambda>p. None),
       newPage_r = None,
       goto_r = (\<lambda>url. Inr (Some hdrs)),
       content_r = Inr ''<html></html>'',
       pdf_r = None,
       screenshot_r = None,
       body_r = Inr ''bytes'',
       writeFileSync_r = (\<lambda>p. None),
       close_r = None \<rparr>"

definition example_request :: request where
  "example_request =
     \<lparr> req_url = Some ''https://example.com/'', req_protocol = ''http'',
       req_host = ''localhost:3000'' \<rparr>"

section \<open>Properties of URL normalisation\<close>

text \<open>
  Claim C9. For every input string on which the URL constructor fails, \<open>normalizeUrl\<close>
  returns the input string unchanged; it raises nothing, being a total function into
  strings.
\<close>

theorem normalizeUrl_parse_failure:
  "URL_new api inputUrl = None \<Longrightarrow> normalizeUrl api inputUrl = inputUrl"
  by (simp add: normalizeUrl_def)

theorem normalizeUrl_parse_failure_witness:
  "URL_new plain_api ''not a url'' = None \<and> normalizeUrl plain_api ''not a url'' = ''not a url''"
proof -
  have h: "URL_new plain_api ''not a url'' = None"
    by code_simp
  show ?thesis
    using h normalizeUrl_parse_failure [OF h] by simp
qed

subsection \<open>The update steps of the normaliser\<close>

lemma delete_fold_snd:
  "snd (fold (searchParams_delete api) names st) = filter (\<lambda>kv. fst kv \<notin> set names) (snd st)"
proof (induction names arbitrary: st)
  case Nil
  show ?case by simp
next
  case (Cons n names)
  have "snd (searchParams_delete api n st) = filter (\<lambda>kv. fst kv \<noteq> n) (snd st)"
    by (simp add: searchParams_delete_def Let_def)
  then show ?case
    using Cons.IH [of "searchParams_delete api n st"] by (simp add: conj_commute)
qed

lemma delete_fold_reachable:
  "url_reachable api (fst st) \<Longrightarrow> url_reachable api (fst (fold (searchParams_delete api) names st))"
proof (induction names arbitrary: st)
  case Nil
  then show ?case by simp
next
  case (Cons n names)
  have "url_reachable api (fst (searchParams_delete api n st))"
    using Cons.prems by (simp add: searchParams_delete_def Let_def url_reachable.updated)
  then show ?case
    using Cons.IH by simp
qed

lemma delete_fold_last:
  assumes "url_reachable api (fst st)" and "names \<noteq> []"
  shows "\<exists>u'. url_reachable api u' \<and>
           fst (fold (searchParams_delete api) names st)
             = URL_set_search api
                 (form_serialize api (filter (\<lambda>kv. fst kv \<notin> set names) (snd st))) u'"
proof -
  from assms(2) obtain ns n where names: "names = ns @ [n]"
    by (metis rev_exhaust)
  let ?prev = "fold (searchParams_delete api) ns st"
  have "fst (fold (searchParams_delete api) names st)
          = URL_set_search api (form_serialize api (filter (\<lambda>kv. fst kv \<noteq> n) (snd ?prev)))
              (fst ?prev)"
    by (simp add: names searchParams_delete_def Let_def)
  moreover have "filter (\<lambda>kv. fst kv \<noteq> n) (snd ?prev)
                   = filter (\<lambda>kv. fst kv \<notin> set names) (snd st)"
    by (auto simp add: delete_fold_snd names intro: filter_cong)
  moreover have "url_reachable api (fst ?prev)"
    using assms(1) by (rule delete_fold_reachable)
  ultimately show ?thesis
    by auto
qed

lemma delete_fold_fixed:
  assumes laws: "url_api_laws api" and u': "url_reachable api u'"
    and w: "w = URL_set_search api (form_serialize api l) u'"
    and l: "\<forall>kv \<in> set l. fst kv \<notin> set names"
  shows "fold (searchParams_delete api) names (w, l) = (w, l)"
  using l
proof (induction names)
  case Nil
  show ?case by simp
next
  case (Cons n names)
  have "filter (\<lambda>kv. fst kv \<noteq> n) l = l"
    using Cons.prems by (auto intro: filter_True)
  moreover have "URL_set_search api (form_serialize api l) w = w"
    using laws u' by (simp add: url_api_laws_def w)
  ultimately have "searchParams_delete api n (w, l) = (w, l)"
    by (simp add: searchParams_delete_def Let_def)
  then show ?case
    using Cons by simp
qed

lemma paramsToRemove_nonempty: "paramsToRemove \<noteq> []"
  by (simp add: paramsToRemove_def)

lemma normalized_object:
  assumes laws: "url_api_laws api" and parse: "URL_new api s = Some u"
  defines "l \<equiv> filter (\<lambda>kv. fst kv \<notin> set paramsToRemove) (searchParams api u)"
  shows "\<exists>w u'. normalizeUrl api s = URL_toString api w \<and> url_reachable api u' \<and>
           w = URL_set_search api (form_serialize api l) u' \<and>
           URL_new api (URL_toString api w) = Some w \<and> searchParams api w = l"
proof -
  have ru: "url_reachable api u"
    using parse by (rule url_reachable.parsed)
  then obtain u' where u': "url_reachable api u'"
    and w: "fst (fold (searchParams_delete api) paramsToRemove (u, searchParams api u))
              = URL_set_search api (form_serialize api l) u'"
    using delete_fold_last [of api "(u, searchParams api u)" paramsToRemove]
      paramsToRemove_nonempty by (auto simp: l_def)
  let ?w = "URL_set_search api (form_serialize api l) u'"
  have rw: "url_reachable api ?w"
    using u' by (rule url_reachable.updated)
  have "normalizeUrl api s = URL_toString api ?w"
    using parse w by (simp add: normalizeUrl_def)
  moreover have "URL_new api (URL_toString api ?w) = Some ?w"
    using laws rw by (simp add: url_api_laws_def)
  moreover have "URL_search api ?w = form_serialize api l"
    using laws u' by (simp add: url_api_laws_def)
  then have "searchParams api ?w = l"
    using laws by (simp add: searchParams_def l_def url_api_laws_def)
  ultimately show ?thesis
    using u' by blast
qed


subsection \<open>The small instance meets the laws\<close>

lemma split_on_nonempty: "split_on c s \<noteq> []"
  by (induction s) (auto split: list.split)

lemma split_on_free: "seg \<in> set (split_on c s) \<Longrightarrow> c \<notin> set seg"
proof (induction s arbitrary: seg)
  case Nil
  then show ?case by simp
next
  case (Cons x s)
  then show ?case
    by (auto split: if_splits list.splits)
qed

lemma split_on_single: "c \<notin> set x \<Longrightarrow> split_on c x = [x]"
  by (induction x) auto

lemma split_on_append: "c \<notin> set x \<Longrightarrow> split_on c (x @ c # rest) = x # split_on c rest"
  by (induction x) (auto split: list.split)

lemma split_on_join:
  "xs \<noteq> [] \<Longrightarrow> \<forall>x \<in> set xs. c \<notin> set x \<Longrightarrow> split_on c (join_with c xs) = xs"
  by (induction c xs rule: join_with.induct) (simp_all add: split_on_single split_on_append)

lemma segments_join:
  assumes "\<forall>x \<in> set xs. c \<notin> set x \<and> x \<noteq> []"
  shows "filter (\<lambda>seg. seg \<noteq> []) (split_on c (join_with c xs)) = xs"
proof (cases xs)
  case Nil
  then show ?thesis by simp
next
  case (Cons y ys)
  then have "split_on c (join_with c xs) = xs"
    using assms by (intro split_on_join) auto
  then show ?thesis
    using assms by (simp add: filter_id_conv)
qed

lemma takeWhile_sep: "c \<notin> set a \<Longrightarrow> takeWhile (\<lambda>x. x \<noteq> c) (a @ c # b) = a"
  by (induction a) auto

lemma dropWhile_sep: "c \<notin> set a \<Longrightarrow> dropWhile (\<lambda>x. x \<noteq> c) (a @ c # b) = c # b"
  by (induction a) auto

lemma takeWhile_free: "c \<notin> set a \<Longrightarrow> takeWhile (\<lambda>x. x \<noteq> c) a = a"
  by (induction a) auto

lemma dropWhile_free: "c \<notin> set a \<Longrightarrow> dropWhile (\<lambda>x. x \<noteq> c) a = []"
  by (induction a) auto

lemma plain_pair_segment:
  "CHR ''='' \<notin> set (fst kv) \<Longrightarrow> plain_pair (plain_segment kv) = kv"
  by (cases kv) (simp add: plain_pair_def plain_segment_def takeWhile_sep dropWhile_sep)

lemma plain_pair_fst_free: "c \<in> set (fst (plain_pair seg)) \<Longrightarrow> c \<in> set seg \<and> c \<noteq> CHR ''=''"
  by (auto simp: plain_pair_def dest: set_takeWhileD)

lemma plain_pair_snd_free: "c \<in> set (snd (plain_pair seg)) \<Longrightarrow> c \<in> set seg"
  by (auto simp: plain_pair_def dest: in_set_dropD set_dropWhileD)

lemma plain_form_roundtrip:
  "plain_form_parse (plain_form_serialize (filter P (plain_form_parse q))) = filter P (plain_form_parse q)"
proof -
  let ?l = "filter P (plain_form_parse q)"
  have pairs: "CHR ''='' \<notin> set (fst kv) \<and> CHR ''&'' \<notin> set (fst kv) \<and> CHR ''&'' \<notin> set (snd kv)"
    if "kv \<in> set ?l" for kv
    using that split_on_free [of _ "CHR ''&''" q]
    by (auto simp: plain_form_parse_def dest!: plain_pair_fst_free plain_pair_snd_free)
  have segs: "\<forall>x \<in> set (map plain_segment ?l). CHR ''&'' \<notin> set x \<and> x \<noteq> []"
    using pairs by (auto simp: plain_segment_def)
  have "plain_form_parse (plain_form_serialize ?l)
          = map plain_pair (filter (\<lambda>seg. seg \<noteq> [])
              (split_on CHR ''&'' (join_with CHR ''&'' (map plain_segment ?l))))"
    by (simp only: plain_form_parse_def plain_form_serialize_def)
  also have "\<dots> = map plain_pair (map plain_segment ?l)"
    by (simp only: segments_join [OF segs])
  also have "\<dots> = ?l"
  proof -
    have "plain_pair (plain_segment kv) = kv" if "kv \<in> set ?l" for kv
      using pairs [OF that] by (simp add: plain_pair_segment)
    then have "map (\<lambda>kv. plain_pair (plain_segment kv)) ?l = ?l"
      by (intro map_idI)
    then show ?thesis
      by (simp only: map_map o_def)
  qed
  finally show ?thesis .
qed

lemma plain_reachable_head:
  "url_reachable plain_api u \<Longrightarrow> plain_valid_head (fst u) \<and> CHR ''?'' \<notin> set (fst u)"
proof (induction rule: url_reachable.induct)
  case (parsed s u)
  then show ?case
    by (auto simp: plain_api_def plain_URL_new_def Let_def split: if_splits dest: set_takeWhileD)
next
  case (updated u l)
  then show ?case by (simp add: plain_api_def)
qed

lemma plain_reparse:
  assumes "plain_valid_head h" and "CHR ''?'' \<notin> set h"
  shows "plain_URL_new (plain_URL_toString (h, q)) = Some (h, q)"
proof (cases "q = []")
  case True
  then show ?thesis
    using assms
    by (simp add: plain_URL_new_def plain_URL_toString_def takeWhile_free dropWhile_free)
next
  case False
  then show ?thesis
    using assms
    by (simp add: plain_URL_new_def plain_URL_toString_def takeWhile_sep dropWhile_sep)
qed

lemma plain_api_laws: "url_api_laws plain_api"
proof -
  have 1: "URL_new plain_api (URL_toString plain_api u) = Some u" if "url_reachable plain_api u" for u
    using plain_reachable_head [OF that] plain_reparse [of "fst u" "snd u"]
    by (simp add: plain_api_def)
  have 4: "form_parse plain_api (form_serialize plain_api (filter P (form_parse plain_api q)))
          = filter P (form_parse plain_api q)" for P q
    using plain_form_roundtrip [of P q] by (simp add: plain_api_def)
  show ?thesis
    unfolding url_api_laws_def
    using 1 4 by (simp add: plain_api_def)
qed

subsection \<open>Removal of the listed parameters and idempotence\<close>

text \<open>
  Claim C8. On a platform that meets the laws, for every input the URL constructor
  accepts, the output of \<open>normalizeUrl\<close> is again accepted, and its search parameters are
  those of the input whose name is not in the list of parameters to remove, each kept
  with its value and in the original order: no parameter of the list remains and every
  other one remains.
\<close>

theorem normalizeUrl_removes_denylist:
  assumes "url_api_laws api" and "URL_new api s = Some u"
  shows "\<exists>w. URL_new api (normalizeUrl api s) = Some w \<and>
           searchParams api w
             = filter (\<lambda>kv. fst kv \<notin> set paramsToRemove) (searchParams api u)"
  using normalized_object [OF assms] by auto

theorem normalizeUrl_removes_denylist_witness:
  "URL_new plain_api ''https://ex.com/?utm_source=x&id=1&gclid=7&q=a''
     = Some (''https://ex.com/'', ''utm_source=x&id=1&gclid=7&q=a'') \<and>
   (\<exists>w. URL_new plain_api (normalizeUrl plain_api ''https://ex.com/?utm_source=x&id=1&gclid=7&q=a'')
            = Some w \<and>
        searchParams plain_api w = [(''id'', ''1''), (''q'', ''a'')])"
proof -
  have h: "URL_new plain_api ''https://ex.com/?utm_source=x&id=1&gclid=7&q=a''
             = Some (''https://ex.com/'', ''utm_source=x&id=1&gclid=7&q=a'')"
    by code_simp
  have l: "filter (\<lambda>kv. fst kv \<notin> set paramsToRemove)
             (searchParams plain_api (''https://ex.com/'', ''utm_source=x&id=1&gclid=7&q=a''))
           = [(''id'', ''1''), (''q'', ''a'')]"
    by code_simp
  show ?thesis
    using normalizeUrl_removes_denylist [OF plain_api_laws h] h l by simp
qed

text \<open>
  Claim C7. On a platform that meets the laws, \<open>normalizeUrl\<close> is idempotent on every
  input string, whether the URL constructor accepts it or not.
\<close>

theorem normalizeUrl_idempotent:
  assumes laws: "url_api_laws api"
  shows "normalizeUrl api (normalizeUrl api s) = normalizeUrl api s"
proof (cases "URL_new api s")
  case None
  then show ?thesis by (simp add: normalizeUrl_def)
next
  case (Some u)
  let ?l = "filter (\<lambda>kv. fst kv \<notin> set paramsToRemove) (searchParams api u)"
  from normalized_object [OF laws Some] obtain w u' where
    n: "normalizeUrl api s = URL_toString api w" and u': "url_reachable api u'"
    and w: "w = URL_set_search api (form_serialize api ?l) u'"
    and p: "URL_new api (URL_toString api w) = Some w" and sp: "searchParams api w = ?l"
    by blast
  have "fold (searchParams_delete api) paramsToRemove (w, ?l) = (w, ?l)"
    using laws u' w by (rule delete_fold_fixed) simp
  then show ?thesis
    using n p sp by (simp add: normalizeUrl_def)
qed

theorem normalizeUrl_idempotent_witness:
  "url_api_laws plain_api \<and>
   normalizeUrl plain_api ''https://ex.com/?utm_source=x&id=1'' = ''https://ex.com/?id=1'' \<and>
   normalizeUrl plain_api (normalizeUrl plain_api ''https://ex.com/?utm_source=x&id=1'')
     = normalizeUrl plain_api ''https://ex.com/?utm_source=x&id=1''"
proof -
  have v: "normalizeUrl plain_api ''https://ex.com/?utm_source=x&id=1'' = ''https://ex.com/?id=1''"
    by code_simp
  show ?thesis
    using normalizeUrl_idempotent [OF plain_api_laws, of "''https://ex.com/?utm_source=x&id=1''"]
      plain_api_laws v
    by simp
qed

section \<open>Properties of the archive handler\<close>

lemmas eff_defs = and_then_def ret_def throw_def fs_writeFileSync_def browser_newPage_def
  page_goto_def page_content_def response_body_def page_pdf_def page_screenshot_def
  page_close_def

text \<open>
  Nothing in scope at line 202 is named \<^verbatim>\<open>savedFiles\<close>, so no request is answered with
  status 200, whatever the environment does.
\<close>

lemma savedFiles_unbound:
  "map_of (handler_scope originalUrl normalizedUrl hash archiveSubDir baseUrl) ''savedFiles'' = None"
  by (simp add: handler_scope_def)

lemma archive_never_answers_200: "fst (archive api E req s0) \<noteq> Some (200, v)"
  by (auto simp: archive_def Let_def and_then_def read_identifier_def savedFiles_unbound throw_def
      split: option.splits prod.splits sum.splits if_splits)

text \<open>
  What the session itself computes for an HTML page when every call succeeds: the three
  entries of \<^verbatim>\<open>savedFiles\<close> that the handler then fails to read.
\<close>

lemma session_saved_files:
  "fst (session (ok_env [''content-type'' \<mapsto> ''text/html'']) ''https://example.com/''
          ''da39a3ee'' ''/srv/archive/da39a3ee'' ''http://localhost:3000/files/da39a3ee''
          initial_state)
   = Inr [(''html'', ''http://localhost:3000/files/da39a3ee/da39a3ee.html''),
          (''pdf'', ''http://localhost:3000/files/da39a3ee/da39a3ee.pdf''),
          (''screenshot'', ''http://localhost:3000/files/da39a3ee/da39a3ee.png'')]"
  by code_simp

text \<open>
  The page is closed when every step succeeds, and is left open when the size guard
  throws.
\<close>

lemma page_closed_on_success:
  assumes ok: "calls_succeed E"
    and url: "req_url req = Some url" "url \<noteq> []"
    and nav: "goto_r E (normalizeUrl api url) = Inr (Some hdrs)"
    and size: "\<not> size_exceeded (hdrs ''content-length'')"
  shows "open_pages (snd (archive api E req s0)) = open_pages s0"
proof -
  from ok obtain c b where env:
    "\<And>p. mkdirSync_r E p = None" "newPage_r E = None" "content_r E = Inr c" "pdf_r E = None"
    "screenshot_r E = None" "body_r E = Inr b" "\<And>p. writeFileSync_r E p = None"
    "close_r E = None"
    by (auto simp: calls_succeed_def)
  show ?thesis
    using url nav size env
    by (simp add: archive_def Let_def limit_callback_def session_def save_def
        save_markup_def save_body_def fs_mkdirSync_def eff_defs
        read_identifier_def savedFiles_unbound split: category.split)
qed

lemma page_open_after_size_guard:
  assumes "req_url req = Some url" and "url \<noteq> []"
    and "mkdirSync_r E (path_join (ARCHIVE_DIR E) (sha1_hex E (normalizeUrl api url))) = None"
    and "newPage_r E = None"
    and "goto_r E (normalizeUrl api url) = Inr (Some hdrs)"
    and "size_exceeded (hdrs ''content-length'')"
  shows "open_pages (snd (archive api E req s0)) = open_pages s0 + 1"
  using assms
  by (simp add: archive_def Let_def fs_mkdirSync_def and_then_def limit_callback_def
      session_def browser_newPage_def page_goto_def throw_def)

lemma parseInt_empty: "parseInt [] = None"
  by (simp add: parseInt_def)

text \<open>
  Claim C1 says that a request whose navigation, size check and saves all succeed is
  answered with status 200 and the map of saved artifacts. The handler reads
  \<^verbatim>\<open>savedFiles\<close> outside the function that declares it, so the read throws and the
  \<^verbatim>\<open>catch\<close> answers 500: here for an HTML page with every external call succeeding.
\<close>

theorem archive_success_answers_500:
  "fst (archive plain_api (ok_env [''content-type'' \<mapsto> ''text/html'']) example_request
          initial_state)
     = Some (500, JObject [(''error'', ''savedFiles is not defined'')])"
  by code_simp

text \<open>
  Claim C2 says that the page is closed on every exit path. When the size guard throws,
  the page opened for the request is still open after the handler has answered.
\<close>

theorem page_left_open_on_throw:
  "open_pages (snd (archive plain_api
      (ok_env [''content-type'' \<mapsto> ''text/html'', ''content-length'' \<mapsto> ''2000000000''])
      example_request initial_state)) = 1"
  by code_simp

text \<open>
  Claim C3 says that the dispatcher matches the content type as a substring and without
  regard to letter case. It does neither: \<^verbatim>\<open>TEXT/HTML\<close> selects the fallback where
  \<^verbatim>\<open>text/html\<close> selects the HTML category, and \<^verbatim>\<open>x-image/png\<close>, which contains
  \<^verbatim>\<open>image/\<close>, selects the fallback where \<^verbatim>\<open>image/png\<close> selects the image category.
\<close>

theorem dispatch_case_counterexample:
  "dispatch ''TEXT/HTML'' = Fallback \<and> dispatch ''text/html'' = HtmlPage \<and>
   includes_str ''x-image/png'' ''image/'' \<and> dispatch ''x-image/png'' = Fallback \<and>
   dispatch ''image/png'' = Image"
  by code_simp

subsection \<open>Letter case and the table\<close>

lemma includes_str_sublist: "includes_str s t \<longleftrightarrow> sublist t s"
  by (induction s) (auto simp: sublist_Cons_right)

lemma sublist_map_both: "sublist t s \<Longrightarrow> sublist (map f t) (map f s)"
proof -
  assume "sublist t s"
  then obtain ps ss where "s = ps @ t @ ss"
    by (auto simp: sublist_def)
  then have "map f s = map f ps @ map f t @ map f ss"
    by simp
  then show ?thesis
    unfolding sublist_def by blast
qed

lemma sublist_same_length: "sublist t s \<Longrightarrow> length s = length t \<Longrightarrow> s = t"
  by (auto simp: sublist_def)

lemma row_matches_sublist: "row_matches row ct \<Longrightarrow> sublist (snd (snd row)) ct"
  by (auto simp: row_matches_def includes_str_sublist startsWith_def split: match_kind.splits)

lemma first_match_none: "list_all (\<lambda>row. \<not> row_matches row ct) rows \<Longrightarrow> first_match rows ct = Fallback"
  by (induction rows) auto

lemma patterns_lower: "list_all (\<lambda>p. toLowerCase p = p) category_patterns"
  by code_simp

lemma patterns_apart:
  "list_all (\<lambda>p. list_all (\<lambda>q. includes_str p q \<longrightarrow> q = p) category_patterns) category_patterns"
  by code_simp

lemma dispatch_table: "dispatch ct = first_match category_rows ct"
  by (simp add: dispatch_def category_rows_def row_matches_def)

lemma case_variant_no_match:
  assumes p: "p \<in> set category_patterns" and low: "toLowerCase ct = p" and ne: "ct \<noteq> p"
  shows "matches_no_category ct"
proof -
  have "\<not> row_matches row ct" if row: "row \<in> set category_rows" for row
  proof
    let ?q = "snd (snd row)"
    assume "row_matches row ct"
    then have sub: "sublist ?q ct"
      by (rule row_matches_sublist)
    have q: "?q \<in> set category_patterns"
      using row by (simp add: category_patterns_def)
    then have "toLowerCase ?q = ?q"
      using patterns_lower by (simp add: list_all_iff)
    then have "sublist ?q p"
      using sublist_map_both [OF sub, of lower_char] low by (simp add: toLowerCase_def)
    then have "?q = p"
      using patterns_apart p q by (auto simp: list_all_iff includes_str_sublist)
    moreover have "length ct = length p"
      using low by (auto simp: toLowerCase_def)
    ultimately have "ct = p"
      using sub sublist_same_length by blast
    then show False
      using ne by simp
  qed
  then show ?thesis
    by (simp add: matches_no_category_def list_all_iff)
qed

text \<open>
  Claim C3, amended. The dispatcher selects the category of the first row of the ordered
  table whose pattern the content type matches, compared exactly as written (letter case
  included; as a substring, as a prefix for images and videos), and the fallback when no
  row matches. A content type that differs from a pattern of the table in letter case
  only matches no row and selects the fallback, as \<^verbatim>\<open>TEXT/HTML\<close> does.
\<close>

theorem dispatch_first_match:
  "dispatch ct = first_match category_rows ct \<and>
   (p \<in> set category_patterns \<and> toLowerCase ct = p \<and> ct \<noteq> p \<longrightarrow>
      matches_no_category ct \<and> dispatch ct = Fallback)"
  using case_variant_no_match [of p ct] first_match_none [of ct category_rows]
  by (auto simp: dispatch_table matches_no_category_def)

theorem dispatch_first_match_witness:
  "''text/html'' \<in> set category_patterns \<and> toLowerCase ''TEXT/HTML'' = ''text/html'' \<and>
   ''TEXT/HTML'' \<noteq> ''text/html'' \<and> dispatch ''TEXT/HTML'' = Fallback \<and>
   dispatch ''text/html'' = first_match category_rows ''text/html''"
proof -
  have a: "''text/html'' \<in> set category_patterns"
    by code_simp
  have b: "toLowerCase ''TEXT/HTML'' = ''text/html''"
    by code_simp
  have c: "''TEXT/HTML'' \<noteq> ''text/html''"
    by simp
  have d: "dispatch ''TEXT/HTML'' = Fallback"
    using dispatch_first_match [of "''TEXT/HTML''" "''text/html''"] a b c by blast
  have e: "dispatch ''text/html'' = first_match category_rows ''text/html''"
    using dispatch_first_match [of "''text/html''" "''text/html''"] by blast
  show ?thesis
    using a b c d e by blast
qed

subsection \<open>The size guard\<close>

text \<open>
  Claim C4. When the response carries a \<^verbatim>\<open>content-length\<close> header that \<open>parseInt\<close> reads as
  an integer above 1073741824, the handler answers 500 with the size message and the
  files on disk are those there before the request.
\<close>

theorem size_guard_aborts:
  assumes "req_url req = Some url" and "url \<noteq> []"
    and "mkdirSync_r E (path_join (ARCHIVE_DIR E) (sha1_hex E (normalizeUrl api url))) = None"
    and "newPage_r E = None"
    and "goto_r E (normalizeUrl api url) = Inr (Some hdrs)"
    and "hdrs ''content-length'' = Some v" and "parseInt v = Some n" and "n > 1073741824"
  shows "fst (archive api E req s0)
           = Some (500, JObject [(''error'', ''File size exceeds 1GB, not saving.'')])
         \<and> files (snd (archive api E req s0)) = files s0"
proof -
  have "v \<noteq> []"
    using assms(7) parseInt_empty by auto
  then have "size_exceeded (hdrs ''content-length'')"
    using assms(6-8) by (simp add: size_exceeded_def FILE_SIZE_LIMIT_def)
  then show ?thesis
    using assms(1-5)
    by (simp add: archive_def Let_def fs_mkdirSync_def and_then_def limit_callback_def
        session_def browser_newPage_def page_goto_def throw_def)
qed

theorem size_guard_aborts_witness:
  "parseInt ''1073741825'' = Some 1073741825 \<and>
   fst (archive plain_api (ok_env [''content-length'' \<mapsto> ''1073741825'']) example_request
          initial_state)
     = Some (500, JObject [(''error'', ''File size exceeds 1GB, not saving.'')]) \<and>
   files (snd (archive plain_api (ok_env [''content-length'' \<mapsto> ''1073741825''])
                 example_request initial_state)) = []"
proof -
  let ?E = "ok_env [''content-length'' \<mapsto> ''1073741825'']"
  have h1: "req_url example_request = Some ''https://example.com/''"
    by (simp add: example_request_def)
  have h2: "''https://example.com/'' \<noteq> []"
    by simp
  have h3: "mkdirSync_r ?E (path_join (ARCHIVE_DIR ?E)
              (sha1_hex ?E (normalizeUrl plain_api ''https://example.com/''))) = None"
    by (simp add: ok_env_def)
  have h4: "newPage_r ?E = None"
    by (simp add: ok_env_def)
  have h5: "goto_r ?E (normalizeUrl plain_api ''https://example.com/'')
              = Inr (Some [''content-length'' \<mapsto> ''1073741825''])"
    by (simp add: ok_env_def)
  have h6: "[''content-length'' \<mapsto> ''1073741825''] ''content-length'' = Some ''1073741825''"
    by simp
  have h7: "parseInt ''1073741825'' = Some 1073741825"
    by code_simp
  have h8: "(1073741825::int) > 1073741824"
    by simp
  show ?thesis
    using size_guard_aborts [OF h1 h2 h3 h4 h5 h6 h7 h8, of initial_state] h7
    by (simp add: initial_state_def)
qed

text \<open>The savers do not navigate: they are the same whatever \<^verbatim>\<open>page.goto\<close> returns.\<close>

lemma save_markup_goto: "save_markup (E\<lparr>goto_r := g\<rparr>) = save_markup E"
  by (intro ext) (simp add: save_markup_def eff_defs)

lemma save_body_goto: "save_body (E\<lparr>goto_r := g\<rparr>) = save_body E"
  by (intro ext) (simp add: save_body_def eff_defs)

lemma page_pdf_goto: "page_pdf (E\<lparr>goto_r := g\<rparr>) = page_pdf E"
  by (intro ext) (simp add: eff_defs)

lemma page_screenshot_goto: "page_screenshot (E\<lparr>goto_r := g\<rparr>) = page_screenshot E"
  by (intro ext) (simp add: eff_defs)

lemma save_goto: "save (E\<lparr>goto_r := g\<rparr>) = save E"
  by (intro ext)
    (simp add: save_def save_markup_goto save_body_goto page_pdf_goto page_screenshot_goto
      split: category.split)

lemma fs_mkdirSync_goto: "fs_mkdirSync (E\<lparr>goto_r := g\<rparr>) = fs_mkdirSync E"
  by (intro ext) (simp add: fs_mkdirSync_def)

lemma calls_succeed_ok_env: "calls_succeed (ok_env hdrs)"
  by (simp add: calls_succeed_def ok_env_def)

subsection \<open>What a successful session saves\<close>

lemma split_on_hd: "split_on c s = takeWhile (\<lambda>x. x \<noteq> c) s # tl (split_on c s)"
  by (induction s) (auto split: list.split)

lemma video_ext_subtype:
  assumes "startsWith ct ''video/''"
  shows "video_ext ct = (let subtype = takeWhile (\<lambda>c. c \<noteq> CHR ''/'') (drop 6 ct)
                         in if subtype = [] then ''mp4'' else subtype)"
proof -
  from assms obtain rest where ct: "ct = ''video/'' @ rest"
    by (auto simp: startsWith_def prefix_def)
  obtain t where "split_on CHR ''/'' rest = takeWhile (\<lambda>x. x \<noteq> CHR ''/'') rest # t"
    using split_on_hd [of "CHR ''/''" rest] by blast
  then show ?thesis
    by (simp add: video_ext_def ct Let_def)
qed

lemma table_extensions_dispatch:
  "table_extensions ct =
     (case dispatch ct of
        HtmlPage \<Rightarrow> [''html'', ''pdf'', ''png'']
      | PdfFile \<Rightarrow> [''pdf'']
      | Image \<Rightarrow> [image_ext ct]
      | Video \<Rightarrow> [video_ext ct]
      | Csv \<Rightarrow> [''csv'']
      | Spreadsheet \<Rightarrow> [excel_ext ct]
      | Document \<Rightarrow> [word_ext ct]
      | ZipArchive \<Rightarrow> [''zip'']
      | Fallback \<Rightarrow> [''html''])"
  by (simp add: table_extensions_def dispatch_def image_ext_def excel_ext_def word_ext_def
      video_ext_subtype)

lemma save_body_ok:
  assumes "body_r E = Inr b" and "\<And>p. writeFileSync_r E p = None"
  shows "save_body E dir base hash ext s
           = (Inr [(''file'', base @ ''/'' @ hash @ ''.'' @ ext)],
              s\<lparr>files := files s @ [(path_join dir (hash @ ''.'' @ ext), Body b)]\<rparr>)"
  using assms by (simp add: save_body_def eff_defs Let_def)

lemma save_markup_ok:
  assumes "content_r E = Inr c" and "\<And>p. writeFileSync_r E p = None"
  shows "save_markup E dir base hash s
           = (Inr [(''html'', base @ ''/'' @ hash @ ''.html'')],
              s\<lparr>files := files s @ [(path_join dir (hash @ ''.html''), Markup c)]\<rparr>)"
  using assms by (simp add: save_markup_def eff_defs Let_def)

lemma save_files:
  assumes "content_r E = Inr c" and "pdf_r E = None" and "screenshot_r E = None"
    and "body_r E = Inr b" and "\<And>p. writeFileSync_r E p = None"
  shows "\<exists>saved. fst (save E dir base hash ct s) = Inr saved \<and>
           map fst (files (snd (save E dir base hash ct s)))
             = map fst (files s) @ map (\<lambda>e. path_join dir hash @ ''.'' @ e) (table_extensions ct) \<and>
           open_pages (snd (save E dir base hash ct s)) = open_pages s"
  using assms(2,3)
  by (cases "dispatch ct")
    (simp_all add: save_def table_extensions_dispatch save_body_ok [OF assms(4,5)]
      save_markup_ok [OF assms(1,5)] and_then_def ret_def page_pdf_def page_screenshot_def
      path_join_def Let_def)

lemma table_extensions_nonempty: "table_extensions ct \<noteq> []"
  by (simp add: table_extensions_def)

lemma session_ok:
  assumes env: "newPage_r E = None" "content_r E = Inr c" "pdf_r E = None"
      "screenshot_r E = None" "body_r E = Inr b" "\<And>p. writeFileSync_r E p = None"
      "close_r E = None"
    and nav: "goto_r E url = Inr (Some hdrs)"
    and size: "\<not> size_exceeded (hdrs ''content-length'')"
    and ct: "ct = (case hdrs ''content-type'' of None \<Rightarrow> [] | Some v \<Rightarrow> v)"
  shows "\<exists>saved s'. session E url hash dir base s = (Inr saved, s') \<and>
           map fst (files s')
             = map fst (files s) @ map (\<lambda>e. path_join dir hash @ ''.'' @ e) (table_extensions ct) \<and>
           open_pages s' = open_pages s"
proof -
  let ?s1 = "s\<lparr>open_pages := open_pages s + 1\<rparr>"
  obtain r s2 where sv: "save E dir base hash ct ?s1 = (r, s2)"
    by (cases "save E dir base hash ct ?s1")
  from save_files [OF env(2-6), of dir base hash ct ?s1] sv
  obtain saved where r: "r = Inr saved"
    and f: "map fst (files s2)
              = map fst (files s) @ map (\<lambda>e. path_join dir hash @ ''.'' @ e) (table_extensions ct)"
    and p: "open_pages s2 = open_pages s + 1"
    by auto
  have "session E url hash dir base s = (Inr saved, s2\<lparr>open_pages := open_pages s2 - 1\<rparr>)"
    using env(1,7) nav size sv r
    by (simp add: session_def and_then_def browser_newPage_def page_goto_def page_close_def
        ret_def ct [symmetric])
  then show ?thesis
    using f p by simp
qed

lemma archive_ok:
  assumes ok: "calls_succeed E"
    and url: "req_url req = Some url" "url \<noteq> []"
    and nav: "goto_r E (normalizeUrl api url) = Inr (Some hdrs)"
    and size: "\<not> size_exceeded (hdrs ''content-length'')"
    and ct: "ct = (case hdrs ''content-type'' of None \<Rightarrow> [] | Some v \<Rightarrow> v)"
    and stem: "stem = path_join (path_join (ARCHIVE_DIR E) (sha1_hex E (normalizeUrl api url)))
                        (sha1_hex E (normalizeUrl api url))"
  shows "map fst (files (snd (archive api E req s0)))
           = map fst (files s0) @ map (\<lambda>e. stem @ ''.'' @ e) (table_extensions ct) \<and>
         fst (archive api E req s0)
           = Some (500, JObject [(''error'', ''savedFiles is not defined'')])"
proof -
  from ok obtain c b where env:
    "\<And>p. mkdirSync_r E p = None" "newPage_r E = None" "content_r E = Inr c" "pdf_r E = None"
    "screenshot_r E = None" "body_r E = Inr b" "\<And>p. writeFileSync_r E p = None"
    "close_r E = None"
    by (auto simp: calls_succeed_def)
  let ?n = "normalizeUrl api url"
  let ?h = "sha1_hex E ?n"
  let ?dir = "path_join (ARCHIVE_DIR E) ?h"
  let ?base = "req_protocol req @ ''://'' @ req_host req @ ''/files/'' @ ?h"
  let ?s1 = "s0\<lparr>dirs := dirs s0 @ [?dir]\<rparr>"
  from session_ok [OF env(2-8) nav size ct, of ?h ?dir ?base ?s1]
  obtain saved s' where s: "session E ?n ?h ?dir ?base ?s1 = (Inr saved, s')"
    and f: "map fst (files s')
              = map fst (files s0) @ map (\<lambda>e. stem @ ''.'' @ e) (table_extensions ct)"
    by (auto simp: stem)
  show ?thesis
    using url env(1) s f
    by (simp add: archive_def Let_def fs_mkdirSync_def limit_callback_def and_then_def ret_def
        throw_def read_identifier_def savedFiles_unbound)
qed

text \<open>
  Claim C5. When every external call succeeds and the size guard does not fire, the files
  the request writes are those of the first row of the table that the content type
  matches, with the extensions of that row, for all nine rows: html, pdf and png for a
  content type containing \<^verbatim>\<open>text/html\<close>; pdf; jpg, gif or png for an image; the subtype
  or mp4 for a video; csv; xls or xlsx; doc or docx; zip; and html for the fallback. In
  particular \<^verbatim>\<open>image/jpeg\<close> gives the one file with extension jpg, and a content type
  that matches no row the one file with extension html. Each file is named by the hash,
  in the directory of the hash.
\<close>

theorem dispatch_outcomes:
  assumes ok: "calls_succeed E"
    and url: "req_url req = Some url" "url \<noteq> []"
    and nav: "goto_r E (normalizeUrl api url) = Inr (Some hdrs)"
    and size: "\<not> size_exceeded (hdrs ''content-length'')"
    and ct: "contentType = (case hdrs ''content-type'' of None \<Rightarrow> [] | Some v \<Rightarrow> v)"
    and stem: "stem = path_join (path_join (ARCHIVE_DIR E) (sha1_hex E (normalizeUrl api url)))
                        (sha1_hex E (normalizeUrl api url))"
    and out: "written = map fst (files (snd (archive api E req s0)))"
  shows "written = map fst (files s0) @ map (\<lambda>e. stem @ ''.'' @ e) (table_extensions contentType) \<and>
         (includes_str contentType ''text/html'' \<longrightarrow>
            written = map fst (files s0) @ [stem @ ''.html'', stem @ ''.pdf'', stem @ ''.png'']) \<and>
         (contentType = ''image/jpeg'' \<longrightarrow> written = map fst (files s0) @ [stem @ ''.jpg'']) \<and>
         (matches_no_category contentType \<longrightarrow>
            written = map fst (files s0) @ [stem @ ''.html''])"
proof -
  have w: "written = map fst (files s0) @ map (\<lambda>e. stem @ ''.'' @ e) (table_extensions contentType)"
    using archive_ok [OF ok url nav size ct stem, of s0] out by simp
  have html: "includes_str contentType ''text/html'' \<Longrightarrow>
                table_extensions contentType = [''html'', ''pdf'', ''png'']"
    by (simp add: table_extensions_def)
  have jpeg: "table_extensions ''image/jpeg'' = [''jpg'']"
    by code_simp
  have none: "matches_no_category contentType \<Longrightarrow> table_extensions contentType = [''html'']"
    by (simp add: matches_no_category_def category_rows_def row_matches_def table_extensions_def)
  show ?thesis
    using w html jpeg none by auto
qed

theorem dispatch_outcomes_witness:
  "map fst (files (snd (archive plain_api
       (ok_env [''content-type'' \<mapsto> ''text/html; charset=utf-8''])
       example_request initial_state)))
     = [''/srv/archive/da39a3ee/da39a3ee.html'', ''/srv/archive/da39a3ee/da39a3ee.pdf'', ''/srv/archive/da39a3ee/da39a3ee.png''] \<and>
   map fst (files (snd (archive plain_api
       (ok_env [''content-type'' \<mapsto> ''application/pdf; text/html''])
       example_request initial_state)))
     = [''/srv/archive/da39a3ee/da39a3ee.html'', ''/srv/archive/da39a3ee/da39a3ee.pdf'', ''/srv/archive/da39a3ee/da39a3ee.png''] \<and>
   map fst (files (snd (archive plain_api
       (ok_env [''content-type'' \<mapsto> ''application/pdf''])
       example_request initial_state)))
     = [''/srv/archive/da39a3ee/da39a3ee.pdf''] \<and>
   map fst (files (snd (archive plain_api
       (ok_env [''content-type'' \<mapsto> ''image/jpeg''])
       example_request initial_state)))
     = [''/srv/archive/da39a3ee/da39a3ee.jpg''] \<and>
   map fst (files (snd (archive plain_api
       (ok_env [''content-type'' \<mapsto> ''image/gif''])
       example_request initial_state)))
     = [''/srv/archive/da39a3ee/da39a3ee.gif''] \<and>
   map fst (files (snd (archive plain_api
       (ok_env [''content-type'' \<mapsto> ''image/png''])
       example_request initial_state)))
     = [''/srv/archive/da39a3ee/da39a3ee.png''] \<and>
   map fst (files (snd (archive plain_api
       (ok_env [''content-type'' \<mapsto> ''image/svg+xml; application/zip''])
       example_request initial_state)))
     = [''/srv/archive/da39a3ee/da39a3ee.png''] \<and>
   map fst (files (snd (archive plain_api
       (ok_env [''content-type'' \<mapsto> ''video/webm''])
       example_request initial_state)))
     = [''/srv/archive/da39a3ee/da39a3ee.webm''] \<and>
   map fst (files (snd (archive plain_api
       (ok_env [''content-type'' \<mapsto> ''video/''])
       example_request initial_state)))
     = [''/srv/archive/da39a3ee/da39a3ee.mp4''] \<and>
   map fst (files (snd (archive plain_api
       (ok_env [''content-type'' \<mapsto> ''text/csv''])
       example_request initial_state)))
     = [''/srv/archive/da39a3ee/da39a3ee.csv''] \<and>
   map fst (files (snd (archive plain_api
       (ok_env [''content-type'' \<mapsto> ''application/vnd.ms-excel''])
       example_request initial_state)))
     = [''/srv/archive/da39a3ee/da39a3ee.xls''] \<and>
   map fst (files (snd (archive plain_api
       (ok_env [''content-type'' \<mapsto> ''application/vnd.openxmlformats-officedocument.spreadsheetml.sheet''])
       example_request initial_state)))
     = [''/srv/archive/da39a3ee/da39a3ee.xlsx''] \<and>
   map fst (files (snd (archive plain_api
       (ok_env [''content-type'' \<mapsto> ''application/msword''])
       example_request initial_state)))
     = [''/srv/archive/da39a3ee/da39a3ee.doc''] \<and>
   map fst (files (snd (archive plain_api
       (ok_env [''content-type'' \<mapsto> ''application/vnd.openxmlformats-officedocument.wordprocessingml.document''])
       example_request initial_state)))
     = [''/srv/archive/da39a3ee/da39a3ee.docx''] \<and>
   map fst (files (snd (archive plain_api
       (ok_env [''content-type'' \<mapsto> ''application/zip''])
       example_request initial_state)))
     = [''/srv/archive/da39a3ee/da39a3ee.zip''] \<and>
   map fst (files (snd (archive plain_api
       (ok_env [''content-type'' \<mapsto> ''application/octet-stream''])
       example_request initial_state)))
     = [''/srv/archive/da39a3ee/da39a3ee.html'']"
proof -
  have u1: "req_url example_request = Some ''https://example.com/''"
    by (simp add: example_request_def)
  have u2: "''https://example.com/'' \<noteq> []"
    by simp
  have nav: "goto_r (ok_env h) (normalizeUrl plain_api ''https://example.com/'') = Inr (Some h)"
    for h
    by (simp add: ok_env_def)
  have size: "\<not> size_exceeded ([''content-type'' \<mapsto> t] ''content-length'')" for t
    by (simp add: size_exceeded_def)
  have ct: "t = (case [''content-type'' \<mapsto> t] ''content-type'' of None \<Rightarrow> [] | Some v \<Rightarrow> v)"
    for t
    by simp
  have stem: "''/srv/archive/da39a3ee/da39a3ee''
      = path_join (path_join (ARCHIVE_DIR (ok_env h))
            (sha1_hex (ok_env h) (normalizeUrl plain_api ''https://example.com/'')))
          (sha1_hex (ok_env h) (normalizeUrl plain_api ''https://example.com/''))" for h
    by (simp add: path_join_def ARCHIVE_DIR_def ok_env_def)
  have a: "includes_str ''text/html; charset=utf-8'' ''text/html''"
    by code_simp
  have b: "matches_no_category ''application/octet-stream''"
    by code_simp
  have e0: "table_extensions ''text/html; charset=utf-8'' = [''html'', ''pdf'', ''png'']"
    by code_simp
  have r0: "map fst (files (snd (archive plain_api (ok_env [''content-type'' \<mapsto> ''text/html; charset=utf-8'']) example_request initial_state)))
     = [''/srv/archive/da39a3ee/da39a3ee.html'', ''/srv/archive/da39a3ee/da39a3ee.pdf'', ''/srv/archive/da39a3ee/da39a3ee.png'']"
    using dispatch_outcomes [where E = "ok_env [''content-type'' \<mapsto> ''text/html; charset=utf-8'']"
        and hdrs = "[''content-type'' \<mapsto> ''text/html; charset=utf-8'']" and contentType = "''text/html; charset=utf-8''"
        and api = plain_api and ?s0.0 = initial_state,
        OF calls_succeed_ok_env u1 u2 nav size ct stem refl] e0 a
    by (simp add: initial_state_def)
  have e1: "table_extensions ''application/pdf; text/html'' = [''html'', ''pdf'', ''png'']"
    by code_simp
  have r1: "map fst (files (snd (archive plain_api (ok_env [''content-type'' \<mapsto> ''application/pdf; text/html'']) example_request initial_state)))
     = [''/srv/archive/da39a3ee/da39a3ee.html'', ''/srv/archive/da39a3ee/da39a3ee.pdf'', ''/srv/archive/da39a3ee/da39a3ee.png'']"
    using dispatch_outcomes [where E = "ok_env [''content-type'' \<mapsto> ''application/pdf; text/html'']"
        and hdrs = "[''content-type'' \<mapsto> ''application/pdf; text/html'']" and contentType = "''application/pdf; text/html''"
        and api = plain_api and ?s0.0 = initial_state,
        OF calls_succeed_ok_env u1 u2 nav size ct stem refl] e1
    by (simp add: initial_state_def)
  have e2: "table_extensions ''application/pdf'' = [''pdf'']"
    by code_simp
  have r2: "map fst (files (snd (archive plain_api (ok_env [''content-type'' \<mapsto> ''application/pdf'']) example_request initial_state)))
     = [''/srv/archive/da39a3ee/da39a3ee.pdf'']"
    using dispatch_outcomes [where E = "ok_env [''content-type'' \<mapsto> ''application/pdf'']"
        and hdrs = "[''content-type'' \<mapsto> ''application/pdf'']" and contentType = "''application/pdf''"
        and api = plain_api and ?s0.0 = initial_state,
        OF calls_succeed_ok_env u1 u2 nav size ct stem refl] e2
    by (simp add: initial_state_def)
  have e3: "table_extensions ''image/jpeg'' = [''jpg'']"
    by code_simp
  have r3: "map fst (files (snd (archive plain_api (ok_env [''content-type'' \<mapsto> ''image/jpeg'']) example_request initial_state)))
     = [''/srv/archive/da39a3ee/da39a3ee.jpg'']"
    using dispatch_outcomes [where E = "ok_env [''content-type'' \<mapsto> ''image/jpeg'']"
        and hdrs = "[''content-type'' \<mapsto> ''image/jpeg'']" and contentType = "''image/jpeg''"
        and api = plain_api and ?s0.0 = initial_state,
        OF calls_succeed_ok_env u1 u2 nav size ct stem refl] e3
    by (simp add: initial_state_def)
  have e4: "table_extensions ''image/gif'' = [''gif'']"
    by code_simp
  have r4: "map fst (files (snd (archive plain_api (ok_env [''content-type'' \<mapsto> ''image/gif'']) example_request initial_state)))
     = [''/srv/archive/da39a3ee/da39a3ee.gif'']"
    using dispatch_outcomes [where E = "ok_env [''content-type'' \<mapsto> ''image/gif'']"
        and hdrs = "[''content-type'' \<mapsto> ''image/gif'']" and contentType = "''image/gif''"
        and api = plain_api and ?s0.0 = initial_state,
        OF calls_succeed_ok_env u1 u2 nav size ct stem refl] e4
    by (simp add: initial_state_def)
  have e5: "table_extensions ''image/png'' = [''png'']"
    by code_simp
  have r5: "map fst (files (snd (archive plain_api (ok_env [''content-type'' \<mapsto> ''image/png'']) example_request initial_state)))
     = [''/srv/archive/da39a3ee/da39a3ee.png'']"
    using dispatch_outcomes [where E = "ok_env [''content-type'' \<mapsto> ''image/png'']"
        and hdrs = "[''content-type'' \<mapsto> ''image/png'']" and contentType = "''image/png''"
        and api = plain_api and ?s0.0 = initial_state,
        OF calls_succeed_ok_env u1 u2 nav size ct stem refl] e5
    by (simp add: initial_state_def)
  have e6: "table_extensions ''image/svg+xml; application/zip'' = [''png'']"
    by code_simp
  have r6: "map fst (files (snd (archive plain_api (ok_env [''content-type'' \<mapsto> ''image/svg+xml; application/zip'']) example_request initial_state)))
     = [''/srv/archive/da39a3ee/da39a3ee.png'']"
    using dispatch_outcomes [where E = "ok_env [''content-type'' \<mapsto> ''image/svg+xml; application/zip'']"
        and hdrs = "[''content-type'' \<mapsto> ''image/svg+xml; application/zip'']" and contentType = "''image/svg+xml; application/zip''"
        and api = plain_api and ?s0.0 = initial_state,
        OF calls_succeed_ok_env u1 u2 nav size ct stem refl] e6
    by (simp add: initial_state_def)
  have e7: "table_extensions ''video/webm'' = [''webm'']"
    by code_simp
  have r7: "map fst (files (snd (archive plain_api (ok_env [''content-type'' \<mapsto> ''video/webm'']) example_request initial_state)))
     = [''/srv/archive/da39a3ee/da39a3ee.webm'']"
    using dispatch_outcomes [where E = "ok_env [''content-type'' \<mapsto> ''video/webm'']"
        and hdrs = "[''content-type'' \<mapsto> ''video/webm'']" and contentType = "''video/webm''"
        and api = plain_api and ?s0.0 = initial_state,
        OF calls_succeed_ok_env u1 u2 nav size ct stem refl] e7
    by (simp add: initial_state_def)
  have e8: "table_extensions ''video/'' = [''mp4'']"
    by code_simp
  have r8: "map fst (files (snd (archive plain_api (ok_env [''content-type'' \<mapsto> ''video/'']) example_request initial_state)))
     = [''/srv/archive/da39a3ee/da39a3ee.mp4'']"
    using dispatch_outcomes [where E = "ok_env [''content-type'' \<mapsto> ''video/'']"
        and hdrs = "[''content-type'' \<mapsto> ''video/'']" and contentType = "''video/''"
        and api = plain_api and ?s0.0 = initial_state,
        OF calls_succeed_ok_env u1 u2 nav size ct stem refl] e8
    by (simp add: initial_state_def)
  have e9: "table_extensions ''text/csv'' = [''csv'']"
    by code_simp
  have r9: "map fst (files (snd (archive plain_api (ok_env [''content-type'' \<mapsto> ''text/csv'']) example_request initial_state)))
     = [''/srv/archive/da39a3ee/da39a3ee.csv'']"
    using dispatch_outcomes [where E = "ok_env [''content-type'' \<mapsto> ''text/csv'']"
        and hdrs = "[''content-type'' \<mapsto> ''text/csv'']" and contentType = "''text/csv''"
        and api = plain_api and ?s0.0 = initial_state,
        OF calls_succeed_ok_env u1 u2 nav size ct stem refl] e9
    by (simp add: initial_state_def)
  have e10: "table_extensions ''application/vnd.ms-excel'' = [''xls'']"
    by code_simp
  have r10: "map fst (files (snd (archive plain_api (ok_env [''content-type'' \<mapsto> ''application/vnd.ms-excel'']) example_request initial_state)))
     = [''/srv/archive/da39a3ee/da39a3ee.xls'']"
    using dispatch_outcomes [where E = "ok_env [''content-type'' \<mapsto> ''application/vnd.ms-excel'']"
        and hdrs = "[''content-type'' \<mapsto> ''application/vnd.ms-excel'']" and contentType = "''application/vnd.ms-excel''"
        and api = plain_api and ?s0.0 = initial_state,
        OF calls_succeed_ok_env u1 u2 nav size ct stem refl] e10
    by (simp add: initial_state_def)
  have e11: "table_extensions ''application/vnd.openxmlformats-officedocument.spreadsheetml.sheet'' = [''xlsx'']"
    by code_simp
  have r11: "map fst (files (snd (archive plain_api (ok_env [''content-type'' \<mapsto> ''application/vnd.openxmlformats-officedocument.spreadsheetml.sheet'']) example_request initial_state)))
     = [''/srv/archive/da39a3ee/da39a3ee.xlsx'']"
    using dispatch_outcomes [where E = "ok_env [''content-type'' \<mapsto> ''application/vnd.openxmlformats-officedocument.spreadsheetml.sheet'']"
        and hdrs = "[''content-type'' \<mapsto> ''application/vnd.openxmlformats-officedocument.spreadsheetml.sheet'']" and contentType = "''application/vnd.openxmlformats-officedocument.spreadsheetml.sheet''"
        and api = plain_api and ?s0.0 = initial_state,
        OF calls_succeed_ok_env u1 u2 nav size ct stem refl] e11
    by (simp add: initial_state_def)
  have e12: "table_extensions ''application/msword'' = [''doc'']"
    by code_simp
  have r12: "map fst (files (snd (archive plain_api (ok_env [''content-type'' \<mapsto> ''application/msword'']) example_request initial_state)))
     = [''/srv/archive/da39a3ee/da39a3ee.doc'']"
    using dispatch_outcomes [where E = "ok_env [''content-type'' \<mapsto> ''application/msword'']"
        and hdrs = "[''content-type'' \<mapsto> ''application/msword'']" and contentType = "''application/msword''"
        and api = plain_api and ?s0.0 = initial_state,
        OF calls_succeed_ok_env u1 u2 nav size ct stem refl] e12
    by (simp add: initial_state_def)
  have e13: "table_extensions ''application/vnd.openxmlformats-officedocument.wordprocessingml.document'' = [''docx'']"
    by code_simp
  have r13: "map fst (files (snd (archive plain_api (ok_env [''content-type'' \<mapsto> ''application/vnd.openxmlformats-officedocument.wordprocessingml.document'']) example_request initial_state)))
     = [''/srv/archive/da39a3ee/da39a3ee.docx'']"
    using dispatch_outcomes [where E = "ok_env [''content-type'' \<mapsto> ''application/vnd.openxmlformats-officedocument.wordprocessingml.document'']"
        and hdrs = "[''content-type'' \<mapsto> ''application/vnd.openxmlformats-officedocument.wordprocessingml.document'']" and contentType = "''application/vnd.openxmlformats-officedocument.wordprocessingml.document''"
        and api = plain_api and ?s0.0 = initial_state,
        OF calls_succeed_ok_env u1 u2 nav size ct stem refl] e13
    by (simp add: initial_state_def)
  have e14: "table_extensions ''application/zip'' = [''zip'']"
    by code_simp
  have r14: "map fst (files (snd (archive plain_api (ok_env [''content-type'' \<mapsto> ''application/zip'']) example_request initial_state)))
     = [''/srv/archive/da39a3ee/da39a3ee.zip'']"
    using dispatch_outcomes [where E = "ok_env [''content-type'' \<mapsto> ''application/zip'']"
        and hdrs = "[''content-type'' \<mapsto> ''application/zip'']" and contentType = "''application/zip''"
        and api = plain_api and ?s0.0 = initial_state,
        OF calls_succeed_ok_env u1 u2 nav size ct stem refl] e14
    by (simp add: initial_state_def)
  have e15: "table_extensions ''application/octet-stream'' = [''html'']"
    by code_simp
  have r15: "map fst (files (snd (archive plain_api (ok_env [''content-type'' \<mapsto> ''application/octet-stream'']) example_request initial_state)))
     = [''/srv/archive/da39a3ee/da39a3ee.html'']"
    using dispatch_outcomes [where E = "ok_env [''content-type'' \<mapsto> ''application/octet-stream'']"
        and hdrs = "[''content-type'' \<mapsto> ''application/octet-stream'']" and contentType = "''application/octet-stream''"
        and api = plain_api and ?s0.0 = initial_state,
        OF calls_succeed_ok_env u1 u2 nav size ct stem refl] e15 b
    by (simp add: initial_state_def)
  show ?thesis
    using r0 r1 r2 r3 r4 r5 r6 r7 r8 r9 r10 r11 r12 r13 r14 r15
    by blast
qed

subsection \<open>A length that is not a number\<close>

lemma unparsable_length_same_run:
  assumes "hdrs ''content-length'' = Some v" and "parseInt v = None"
  shows "archive api (E\<lparr>goto_r := \<lambda>u. Inr (Some hdrs)\<rparr>) req s0
           = archive api (E\<lparr>goto_r := \<lambda>u. Inr (Some (hdrs(''content-length'' := None)))\<rparr>)
               req s0"
proof -
  have a: "\<not> size_exceeded (hdrs ''content-length'')"
    using assms by (simp add: size_exceeded_def)
  have b: "\<not> size_exceeded ((hdrs(''content-length'' := None)) ''content-length'')"
    by (simp add: size_exceeded_def)
  have c: "(hdrs(''content-length'' := None)) ''content-type'' = hdrs ''content-type''"
    by simp
  have "session (E\<lparr>goto_r := \<lambda>u. Inr (Some hdrs)\<rparr>) url h d b
          = session (E\<lparr>goto_r := \<lambda>u. Inr (Some (hdrs(''content-length'' := None)))\<rparr>)
              url h d b" for url h d b
    unfolding session_def using a b c
    by (simp add: save_goto browser_newPage_def page_goto_def page_close_def and_then_def)
  then have "limit_callback (E\<lparr>goto_r := \<lambda>u. Inr (Some hdrs)\<rparr>) url h d b
          = limit_callback (E\<lparr>goto_r := \<lambda>u. Inr (Some (hdrs(''content-length'' := None)))\<rparr>)
              url h d b" for url h d b
    by (simp add: limit_callback_def)
  then show ?thesis
    by (simp add: archive_def ARCHIVE_DIR_def Let_def fs_mkdirSync_goto
        split: option.split prod.split sum.split)
qed

text \<open>
  Claim C10. When the \<^verbatim>\<open>content-length\<close> header is present and \<open>parseInt\<close> reads no
  number from it, the size guard does not fire, and the handler gives the same answer and
  leaves the same state as for the same response without that header. When moreover
  every external call succeeds, the answer is not the size error and the request goes on
  to dispatch and saving: it writes the files of the row its content type selects.
\<close>

theorem unparsable_length_as_absent:
  assumes len: "hdrs ''content-length'' = Some v" and nan: "parseInt v = None"
    and E1: "E1 = E\<lparr>goto_r := \<lambda>u. Inr (Some hdrs)\<rparr>"
    and E0: "E0 = E\<lparr>goto_r := \<lambda>u. Inr (Some (hdrs(''content-length'' := None)))\<rparr>"
  shows "\<not> size_exceeded (hdrs ''content-length'') \<and>
         archive api E1 req s0 = archive api E0 req s0 \<and>
         (calls_succeed E \<and> req_url req = Some url \<and> url \<noteq> [] \<longrightarrow>
            fst (archive api E1 req s0)
              \<noteq> Some (500, JObject [(''error'', ''File size exceeds 1GB, not saving.'')]) \<and>
            files (snd (archive api E1 req s0)) \<noteq> files s0 \<and>
            map fst (files (snd (archive api E1 req s0)))
              = map fst (files s0) @
                map (\<lambda>e. path_join (path_join (ARCHIVE_DIR E) (sha1_hex E (normalizeUrl api url)))
                            (sha1_hex E (normalizeUrl api url)) @ ''.'' @ e)
                  (table_extensions (case hdrs ''content-type'' of None \<Rightarrow> [] | Some t \<Rightarrow> t)))"
proof -
  have a: "\<not> size_exceeded (hdrs ''content-length'')"
    using len nan by (simp add: size_exceeded_def)
  have b: "archive api E1 req s0 = archive api E0 req s0"
    unfolding E1 E0 using len nan by (rule unparsable_length_same_run)
  have c: "fst (archive api E1 req s0)
              \<noteq> Some (500, JObject [(''error'', ''File size exceeds 1GB, not saving.'')]) \<and>
           files (snd (archive api E1 req s0)) \<noteq> files s0 \<and>
           map fst (files (snd (archive api E1 req s0)))
              = map fst (files s0) @
                map (\<lambda>e. path_join (path_join (ARCHIVE_DIR E) (sha1_hex E (normalizeUrl api url)))
                            (sha1_hex E (normalizeUrl api url)) @ ''.'' @ e)
                  (table_extensions (case hdrs ''content-type'' of None \<Rightarrow> [] | Some t \<Rightarrow> t))"
    if ok: "calls_succeed E" and url: "req_url req = Some url" "url \<noteq> []"
  proof -
    have ok1: "calls_succeed E1"
      using ok by (simp add: calls_succeed_def E1)
    have nav: "goto_r E1 (normalizeUrl api url) = Inr (Some hdrs)"
      by (simp add: E1)
    have stem: "path_join (path_join (ARCHIVE_DIR E) (sha1_hex E (normalizeUrl api url)))
                  (sha1_hex E (normalizeUrl api url))
                = path_join (path_join (ARCHIVE_DIR E1) (sha1_hex E1 (normalizeUrl api url)))
                    (sha1_hex E1 (normalizeUrl api url))"
      by (simp add: E1 ARCHIVE_DIR_def)
    note r = archive_ok [OF ok1 url nav a refl stem, of s0]
    have "map fst (files (snd (archive api E1 req s0))) \<noteq> map fst (files s0)"
      using r table_extensions_nonempty by simp
    then have "files (snd (archive api E1 req s0)) \<noteq> files s0"
      by auto
    then show ?thesis
      using r by simp
  qed
  show ?thesis
    using a b c by blast
qed

theorem unparsable_length_as_absent_witness:
  "parseInt ''abc'' = None \<and>
   archive plain_api
     ((ok_env Map.empty)\<lparr>goto_r := \<lambda>u. Inr (Some [''content-type'' \<mapsto> ''image/jpeg'',
                                                  ''content-length'' \<mapsto> ''abc''])\<rparr>)
     example_request initial_state
   = archive plain_api
       ((ok_env Map.empty)\<lparr>goto_r := \<lambda>u. Inr (Some ([''content-type'' \<mapsto> ''image/jpeg'',
                                     ''content-length'' \<mapsto> ''abc''](''content-length'' := None)))\<rparr>)
       example_request initial_state \<and>
   fst (archive plain_api
     ((ok_env Map.empty)\<lparr>goto_r := \<lambda>u. Inr (Some [''content-type'' \<mapsto> ''image/jpeg'',
                                                  ''content-length'' \<mapsto> ''abc''])\<rparr>)
     example_request initial_state)
     \<noteq> Some (500, JObject [(''error'', ''File size exceeds 1GB, not saving.'')]) \<and>
   map fst (files (snd (archive plain_api
     ((ok_env Map.empty)\<lparr>goto_r := \<lambda>u. Inr (Some [''content-type'' \<mapsto> ''image/jpeg'',
                                                  ''content-length'' \<mapsto> ''abc''])\<rparr>)
     example_request initial_state)))
     = [''/srv/archive/da39a3ee/da39a3ee.jpg'']"
proof -
  let ?hdrs = "[''content-type'' \<mapsto> ''image/jpeg'', ''content-length'' \<mapsto> ''abc'']"
  have h1: "?hdrs ''content-length'' = Some ''abc''"
    by simp
  have h2: "parseInt ''abc'' = None"
    by code_simp
  have ok: "calls_succeed (ok_env Map.empty)"
    by (rule calls_succeed_ok_env)
  have u: "req_url example_request = Some ''https://example.com/''"
    by (simp add: example_request_def)
  have e: "table_extensions ''image/jpeg'' = [''jpg'']"
    by code_simp
  have p: "path_join (path_join (ARCHIVE_DIR (ok_env Map.empty))
              (sha1_hex (ok_env Map.empty) (normalizeUrl plain_api ''https://example.com/'')))
            (sha1_hex (ok_env Map.empty) (normalizeUrl plain_api ''https://example.com/''))
           = ''/srv/archive/da39a3ee/da39a3ee''"
    by (simp add: path_join_def ARCHIVE_DIR_def ok_env_def)
  let ?E1 = "(ok_env Map.empty)\<lparr>goto_r := \<lambda>u. Inr (Some ?hdrs)\<rparr>"
  let ?E0 = "(ok_env Map.empty)\<lparr>goto_r := \<lambda>u. Inr (Some (?hdrs(''content-length'' := None)))\<rparr>"
  note r = unparsable_length_as_absent [where hdrs = "?hdrs" and v = "''abc''"
      and api = plain_api and E = "ok_env Map.empty" and req = example_request
      and ?s0.0 = initial_state and url = "''https://example.com/''",
      OF h1 h2 refl refl]
  have same: "archive plain_api ?E1 example_request initial_state
                = archive plain_api ?E0 example_request initial_state"
    using r by blast
  have "calls_succeed (ok_env Map.empty) \<and>
        req_url example_request = Some ''https://example.com/'' \<and> ''https://example.com/'' \<noteq> []"
    using ok u by simp
  with r have answer: "fst (archive plain_api ?E1 example_request initial_state)
        \<noteq> Some (500, JObject [(''error'', ''File size exceeds 1GB, not saving.'')])"
    and written: "map fst (files (snd (archive plain_api ?E1 example_request initial_state)))
        = map fst (files initial_state) @
          map (\<lambda>e. path_join (path_join (ARCHIVE_DIR (ok_env Map.empty))
                        (sha1_hex (ok_env Map.empty)
                           (normalizeUrl plain_api ''https://example.com/'')))
                      (sha1_hex (ok_env Map.empty)
                         (normalizeUrl plain_api ''https://example.com/'')) @ ''.'' @ e)
            (table_extensions (case ?hdrs ''content-type'' of None \<Rightarrow> [] | Some t \<Rightarrow> t))"
    by blast+
  have "map fst (files (snd (archive plain_api ?E1 example_request initial_state)))
          = [''/srv/archive/da39a3ee/da39a3ee.jpg'']"
    unfolding written p by (simp add: e initial_state_def)
  then show ?thesis
    using h2 same answer by blast
qed

section \<open>Properties of the concurrency gate\<close>

lemma admit_bound: "length (running g) \<le> cap \<Longrightarrow> length (running (admit cap g)) \<le> cap"
  by (simp add: admit_def split: list.split)

lemma release_bound: "length (running g) \<le> cap \<Longrightarrow> length (running (release cap r g)) \<le> cap"
  by (auto simp: release_def length_remove1 intro!: admit_bound)

lemma gate_step_bound:
  "length (running g) \<le> cap \<Longrightarrow> length (running (gate_step cap g ev)) \<le> cap"
  by (cases ev) (simp_all add: admit_bound release_bound)

lemma gate_run_bound: "length (running (gate_run cap evs)) \<le> cap"
proof (induction evs rule: rev_induct)
  case Nil
  show ?case by (simp add: gate_run_def empty_gate_def)
next
  case (snoc ev evs)
  then show ?case
    using gate_step_bound [of "gate_run cap evs" cap ev] by (simp add: gate_run_def)
qed

lemma release_admits:
  assumes "length (running g) \<le> cap" and "r \<in> set (running g)" and "waiting g = q # qs"
  shows "running (release cap r g) = remove1 r (running g) @ [q] \<and> waiting (release cap r g) = qs"
proof -
  have "0 < length (running g)"
    using assms(2) by (rule length_pos_if_in_set)
  moreover have "length (remove1 r (running g)) = length (running g) - 1"
    using assms(2) by (simp add: length_remove1)
  ultimately have "length (remove1 r (running g)) < cap"
    using assms(1) by arith
  then show ?thesis
    using assms(2,3) by (simp add: release_def admit_def)
qed

text \<open>
  Claim C6, on the gate as the spec describes it. After any sequence of arrivals and
  endings, at most five sessions run; and when a running session raises while requests
  wait, the longest waiting request runs next, in the slot given back.
\<close>

theorem gate_bound_and_release:
  "length (running (limit_run evs)) \<le> 5 \<and>
   (r \<in> set (running (limit_run evs)) \<and> waiting (limit_run evs) = q # qs \<longrightarrow>
      running (limit_run (evs @ [Raises r])) = remove1 r (running (limit_run evs)) @ [q] \<and>
      waiting (limit_run (evs @ [Raises r])) = qs)"
  using gate_run_bound [of PARALLEL_LIMIT evs]
    release_admits [of "limit_run evs" PARALLEL_LIMIT r q qs]
  by (simp add: limit_run_def gate_run_def PARALLEL_LIMIT_def)

theorem gate_bound_and_release_witness:
  "running (limit_run [Arrive (1::nat), Arrive 2, Arrive 3, Arrive 4, Arrive 5, Arrive 6])
     = [1, 2, 3, 4, 5] \<and>
   waiting (limit_run [Arrive (1::nat), Arrive 2, Arrive 3, Arrive 4, Arrive 5, Arrive 6]) = [6] \<and>
   running (limit_run ([Arrive (1::nat), Arrive 2, Arrive 3, Arrive 4, Arrive 5, Arrive 6]
                        @ [Raises 3])) = [1, 2, 4, 5, 6] \<and>
   waiting (limit_run ([Arrive (1::nat), Arrive 2, Arrive 3, Arrive 4, Arrive 5, Arrive 6]
                        @ [Raises 3])) = []"
proof -
  let ?evs = "[Arrive (1::nat), Arrive 2, Arrive 3, Arrive 4, Arrive 5, Arrive 6]"
  have a: "running (limit_run ?evs) = [1, 2, 3, 4, 5]"
    by code_simp
  have b: "waiting (limit_run ?evs) = [6]"
    by code_simp
  show ?thesis
    using gate_bound_and_release [of ?evs 3 6 "[]"] a b by simp
qed

end
